theory Spec2Isabelle
  imports Main
begin

section \<open>Python values, errors and builtins\<close>

text \<open>
  The dataset generator of \<^verbatim>\<open>course/module-3/finetuning/generate_data.py\<close> handles two
  kinds of dynamic values: the \<^verbatim>\<open>cleaned_content\<close> field of a stored record and the fields
  of the objects the completion client parses from JSON. Both hold text, and JSON may
  hold \<^verbatim>\<open>null\<close> in place of a text, so a value is \<^verbatim>\<open>None\<close> or a \<^verbatim>\<open>str\<close>. A Python
  \<^verbatim>\<open>dict\<close> keeps insertion order; it is an association list.
\<close>

datatype pyval = PyNone | PyStr string

type_synonym pydict = "(string \<times> pyval) list"

text \<open>Exceptions are values: every \<^verbatim>\<open>raise\<close> of the source is an \<open>Inl\<close> of the model.
  \<open>External\<close> is an exception raised inside a collaborator (the vector store, the
  completion client, the file system, the experiment tracker), with its message.\<close>

datatype error =
    NameError string
  | IndexError
  | KeyError string
  | ValueError
  | External string

fun str_error :: "error \<Rightarrow> string" where
  "str_error (NameError n) = ''name '' @ [CHR 0x27] @ n @ [CHR 0x27] @ '' is not defined''"
| "str_error IndexError = ''list index out of range''"
| "str_error (KeyError k) = [CHR 0x27] @ k @ [CHR 0x27]"
| "str_error ValueError = ''range() arg 3 must not be zero''"
| "str_error (External m) = m"

text \<open>Truth value of \<^verbatim>\<open>if cleaned_content:\<close>.\<close>

fun truthy :: "pyval \<Rightarrow> bool" where
  "truthy PyNone = False"
| "truthy (PyStr s) = (s \<noteq> [])"

text \<open>The builtin \<^verbatim>\<open>str\<close> on a value and on an integer (decimal, a minus sign when negative).\<close>

fun py_str :: "pyval \<Rightarrow> string" where
  "py_str PyNone = ''None''"
| "py_str (PyStr s) = s"

definition digit_char :: "nat \<Rightarrow> char" where
  "digit_char d = ''0123456789'' ! d"

fun str_nat :: "nat \<Rightarrow> string" where
  "str_nat n = (if n < 10 then [digit_char n] else str_nat (n div 10) @ [digit_char (n mod 10)])"

declare str_nat.simps [simp del]

definition str_int :: "int \<Rightarrow> string" where
  "str_int i = (if i < 0 then CHR ''-'' # str_nat (nat (- i)) else str_nat (nat i))"

text \<open>\<^verbatim>\<open>d[key] = value\<close>: an existing key keeps its place, a new key goes last.\<close>

fun dict_set :: "string \<Rightarrow> pyval \<Rightarrow> pydict \<Rightarrow> pydict" where
  "dict_set k v [] = [(k, v)]"
| "dict_set k v (p # ps) = (if fst p = k then (k, v) # ps else p # dict_set k v ps)"

text \<open>\<^verbatim>\<open>range(start, stop, step)\<close> for a positive step, on the natural numbers: every index
  of the generator is a list position. The generator tests the step before it calls this
  (a zero step raises, a negative one yields nothing from 0 upwards), so the first
  disjunct only makes the model total.\<close>

function py_range :: "nat \<Rightarrow> nat \<Rightarrow> nat \<Rightarrow> nat list" where
  "py_range start stop step =
     (if step = 0 \<or> stop \<le> start then [] else start # py_range (start + step) stop step)"
  by pat_completeness auto
termination
  by (relation "measure (\<lambda>(start, stop, step). stop - start)") auto

declare py_range.simps [simp del]

text \<open>The slice \<^verbatim>\<open>xs[i : j]\<close> for \<open>0 \<le> i\<close>: it stops at the end of the list.\<close>

definition py_slice :: "'a list \<Rightarrow> nat \<Rightarrow> nat \<Rightarrow> 'a list" where
  "py_slice xs i j = take (j - i) (drop i xs)"

section \<open>The prompt formatter\<close>

definition USER_PROMPT :: string where
  "USER_PROMPT =
     ''I will give you batches of contents of posts. Please generate me exactly 1 instruction for each of them. The posts text '' @
     ''for which you have to generate the instructions is under Content number x lines. Please structure the answer in json format,'' @
     ''ready to be loaded by json.loads(), a list of objects only with fields called instruction and content. For the content field, copy the number of the content only!.'' @
     ''Please do not add any extra characters and make sure it is a list with objects in valid json format!\<newline>''"

text \<open>\<^verbatim>\<open>DataFormatter.format_data\<close>: the loop over \<^verbatim>\<open>enumerate(data_points)\<close>, with
  the running \<^verbatim>\<open>index\<close> and the accumulated \<^verbatim>\<open>text\<close>.\<close>

fun format_data_loop :: "bool \<Rightarrow> int \<Rightarrow> int \<Rightarrow> pyval list \<Rightarrow> string \<Rightarrow> string" where
  "format_data_loop is_example start_index index [] text = text"
| "format_data_loop is_example start_index index (data_point # rest) text =
     format_data_loop is_example start_index (index + 1) rest
       ((if \<not> is_example
         then text @ ''Content number '' @ str_int (start_index + index) @ ''\<newline>''
         else text)
        @ py_str data_point @ ''\<newline>'')"

definition format_data :: "pyval list \<Rightarrow> bool \<Rightarrow> int \<Rightarrow> string" where
  "format_data data_points is_example start_index =
     format_data_loop is_example start_index 0 data_points ''''"

definition format_batch :: "string \<Rightarrow> pyval list \<Rightarrow> int \<Rightarrow> string" where
  "format_batch context_msg data_points start_index =
     context_msg @ format_data data_points False start_index"

definition format_prompt :: "pyval list \<Rightarrow> int \<Rightarrow> string" where
  "format_prompt inference_posts start_index =
     (USER_PROMPT
      @ ''You must generate exactly a list of '' @ str_int (int (length inference_posts))
      @ '' json objects, using the contents provided under CONTENTS FOR GENERATION\<newline>'')
     @ format_batch ''\<newline>CONTENTS FOR GENERATION: \<newline>'' inference_posts start_index"

section \<open>Collaborators and the observable state\<close>

text \<open>A stored point: its id and its payload, a dictionary.\<close>

record point =
  point_id :: nat
  payload :: pydict

datatype loglevel = INFO | ERROR

text \<open>What a run can change or leave a trace in: the files on disk, the records handed to
  \<^verbatim>\<open>logging\<close>, the \<^verbatim>\<open>scroll\<close> requests made to the vector store and the prompts sent to
  the completion client, oldest first.\<close>

record world =
  files :: "string \<rightharpoonup> string"
  logs :: "(loglevel \<times> string) list"
  scroll_calls :: "(string \<times> nat) list"
  sent :: "string list"

definition logging_info :: "string \<Rightarrow> world \<Rightarrow> world" where
  "logging_info msg w = w\<lparr>logs := logs w @ [(INFO, msg)]\<rparr>"

definition logging_error :: "string \<Rightarrow> world \<Rightarrow> world" where
  "logging_error msg w = w\<lparr>logs := logs w @ [(ERROR, msg)]\<rparr>"

text \<open>An object with a \<^verbatim>\<open>format_prompt\<close> method is the method itself; the class
  \<^verbatim>\<open>DataFormatter\<close> gives \<open>format_prompt\<close>.\<close>

type_synonym formatter = "pyval list \<Rightarrow> int \<Rightarrow> string"

text \<open>
  The names the module resolves outside its own classes. Their code is not part of the
  sources at hand, so each is a parameter:
  \<^item> \<open>scroll\<close> is \<^verbatim>\<open>client.scroll(collection_name, limit)\<close> of the vector store connection,
    which returns a page of points and the offset of the next page, or raises;
  \<^item> \<open>json_dumps\<close> is the text \<^verbatim>\<open>json.dump\<close> writes for a list of objects;
  \<^item> \<open>open_w\<close> is \<^verbatim>\<open>open(file_name, "w")\<close>, which may raise;
  \<^item> \<open>experiment_init\<close>, \<open>artifact_init\<close>, \<open>artifact_add\<close>, \<open>log_artifact\<close> and
    \<open>experiment_end\<close> are the calls into the experiment tracker, each of which may raise
    (\<open>None\<close> is success);
  \<^item> \<open>data_formatter_global\<close> is the module-level name \<^verbatim>\<open>data_formatter\<close>: bound by the
    \<^verbatim>\<open>__main__\<close> block when the file runs as a script, unbound when the module is imported.
\<close>

record module_env =
  scroll :: "string \<Rightarrow> nat \<Rightarrow> error + (point list \<times> nat option)"
  json_dumps :: "pydict list \<Rightarrow> string"
  open_w :: "string \<Rightarrow> error option"
  experiment_init :: "error option"
  artifact_init :: "string \<Rightarrow> error option"
  artifact_add :: "string \<Rightarrow> error option"
  log_artifact :: "error option"
  experiment_end :: "error option"
  data_formatter_global :: "formatter option"

text \<open>The fields \<^verbatim>\<open>__init__\<close> stores. \<open>api_communicator\<close> is the completion client's
  \<^verbatim>\<open>send_prompt\<close>: what the client answers, given how many prompts it has been sent before
  and the prompt, a list of parsed objects or an exception.\<close>

record dataset_generator =
  file_handler :: unit
  api_communicator :: "nat \<Rightarrow> string \<Rightarrow> error + pydict list"
  data_formatter :: formatter

definition DatasetGenerator ::
  "unit \<Rightarrow> (nat \<Rightarrow> string \<Rightarrow> error + pydict list) \<Rightarrow> formatter \<Rightarrow> dataset_generator" where
  "DatasetGenerator fh ac df =
     \<lparr>file_handler = fh, api_communicator = ac, data_formatter = df\<rparr>"

section \<open>The dataset generator\<close>

subsection \<open>\<^verbatim>\<open>fetch_all_cleaned_content\<close>\<close>

text \<open>The loop over the points of the page; \<^verbatim>\<open>point.payload["cleaned_content"]\<close> raises
  \<^verbatim>\<open>KeyError\<close> when the payload has no such key.\<close>

fun collect_cleaned :: "point list \<Rightarrow> pyval list \<Rightarrow> error + pyval list" where
  "collect_cleaned [] all_cleaned_contents = Inr all_cleaned_contents"
| "collect_cleaned (p # points) all_cleaned_contents =
     (case map_of (payload p) ''cleaned_content'' of
        None \<Rightarrow> Inl (KeyError ''cleaned_content'')
      | Some cleaned_content \<Rightarrow>
          collect_cleaned points
            (if truthy cleaned_content then all_cleaned_contents @ [cleaned_content]
             else all_cleaned_contents))"

definition fetch_all_cleaned_content ::
  "module_env \<Rightarrow> string \<Rightarrow> world \<Rightarrow> (error + pyval list) \<times> world" where
  "fetch_all_cleaned_content env collection_name w =
     (let w1 = w\<lparr>scroll_calls := scroll_calls w @ [(collection_name, 10000)]\<rparr> in
      case scroll env collection_name 10000 of
        Inl e \<Rightarrow> (Inl e, w1)
      | Inr scroll_response \<Rightarrow> (collect_cleaned (fst scroll_response) [], w1))"

subsection \<open>\<^verbatim>\<open>push_to_comet\<close>\<close>

text \<open>The body of the \<^verbatim>\<open>try\<close> block, statement by statement: the first exception ends it.\<close>

definition push_to_comet_try ::
  "module_env \<Rightarrow> pydict list \<Rightarrow> string \<Rightarrow> world \<Rightarrow> (error + unit) \<times> world" where
  "push_to_comet_try env data collection_name w =
     (let w1 = logging_info (''Starting to push data to Comet: '' @ collection_name) w in
      (case experiment_init env of Some e \<Rightarrow> (Inl e, w1) | None \<Rightarrow>
      (let file_name = collection_name @ ''.json'';
           w2 = logging_info (''Writing data to file: '' @ file_name) w1 in
      (case open_w env file_name of Some e \<Rightarrow> (Inl e, w2) | None \<Rightarrow>
      (let w3 = w2\<lparr>files := (files w2)(file_name \<mapsto> json_dumps env data)\<rparr>;
           w4 = logging_info ''Data written to file successfully'' w3 in
      (case artifact_init env collection_name of Some e \<Rightarrow> (Inl e, w4) | None \<Rightarrow>
      (case artifact_add env file_name of Some e \<Rightarrow> (Inl e, w4) | None \<Rightarrow>
      (let w5 = logging_info (''Artifact created and file added: '' @ file_name) w4 in
      (case log_artifact env of Some e \<Rightarrow> (Inl e, w5) | None \<Rightarrow>
      (case experiment_end env of Some e \<Rightarrow> (Inl e, w5) | None \<Rightarrow>
      (Inr (), logging_info ''Data pushed to Comet successfully and experiment ended'' w5)
      ))))))))))"

text \<open>The handler \<^verbatim>\<open>except Exception as e\<close> logs and returns.\<close>

definition push_to_comet ::
  "module_env \<Rightarrow> pydict list \<Rightarrow> string \<Rightarrow> world \<Rightarrow> (error + unit) \<times> world" where
  "push_to_comet env data collection_name w =
     (case push_to_comet_try env data collection_name w of
        (Inl e, w') \<Rightarrow> (Inr (), logging_error (''Failed to push data to Comet: '' @ str_error e) w')
      | (Inr u, w') \<Rightarrow> (Inr u, w'))"

subsection \<open>\<^verbatim>\<open>generate_training_data\<close>\<close>

text \<open>The inner loop \<^verbatim>\<open>for j in range(i, i + batch_size)\<close>. The right-hand side
  \<^verbatim>\<open>all_contents[j]\<close> is evaluated first, then \<^verbatim>\<open>response[j]\<close>; either raises
  \<^verbatim>\<open>IndexError\<close> when \<open>j\<close> is past the end.\<close>

fun overwrite_contents :: "nat list \<Rightarrow> pyval list \<Rightarrow> pydict list \<Rightarrow> error + pydict list" where
  "overwrite_contents [] all_contents response = Inr response"
| "overwrite_contents (j # js) all_contents response =
     (if length all_contents \<le> j then Inl IndexError
      else if length response \<le> j then Inl IndexError
      else overwrite_contents js all_contents
             (response[j := dict_set ''content'' (all_contents ! j) (response ! j)]))"

text \<open>The outer loop \<^verbatim>\<open>for i in range(0, len(all_contents), batch_size)\<close>, over the indices
  the range yields. The name \<^verbatim>\<open>data_formatter\<close> is looked up among the module's globals each
  time the line runs; \<^verbatim>\<open>self.data_formatter\<close> is not read.\<close>

fun process_batches ::
  "formatter option \<Rightarrow> (nat \<Rightarrow> string \<Rightarrow> error + pydict list) \<Rightarrow> pyval list \<Rightarrow> nat \<Rightarrow>
   nat list \<Rightarrow> pydict list \<Rightarrow> world \<Rightarrow> (error + pydict list) \<times> world" where
  "process_batches g send_prompt all_contents batch_size [] response w = (Inr response, w)"
| "process_batches g send_prompt all_contents batch_size (i # rest) response w =
     (let batch = py_slice all_contents i (i + batch_size) in
      (case g of
         None \<Rightarrow> (Inl (NameError ''data_formatter''), w)
       | Some fmt \<Rightarrow>
           (let initial_prompt = fmt batch (int i);
                w1 = w\<lparr>sent := sent w @ [initial_prompt]\<rparr> in
            (case send_prompt (length (sent w)) initial_prompt of
               Inl e \<Rightarrow> (Inl e, w1)
             | Inr objs \<Rightarrow>
                 (case overwrite_contents (py_range i (i + batch_size) 1) all_contents
                         (response @ objs) of
                    Inl e \<Rightarrow> (Inl e, w1)
                  | Inr response' \<Rightarrow>
                      process_batches g send_prompt all_contents batch_size rest response' w1)))))"

text \<open>\<^verbatim>\<open>batch_size\<close> is a Python integer: \<^verbatim>\<open>range\<close> raises \<^verbatim>\<open>ValueError\<close> on a zero step and
  is empty for a negative step from 0.\<close>

definition generate_training_data ::
  "module_env \<Rightarrow> dataset_generator \<Rightarrow> string \<Rightarrow> int \<Rightarrow> world \<Rightarrow> (error + unit) \<times> world" where
  "generate_training_data env self collection_name batch_size w =
     (case fetch_all_cleaned_content env collection_name w of
        (Inl e, w1) \<Rightarrow> (Inl e, w1)
      | (Inr all_contents, w1) \<Rightarrow>
          if batch_size = 0 then (Inl ValueError, w1)
          else
            (case process_batches (data_formatter_global env) (api_communicator self)
                    all_contents (nat batch_size)
                    (if batch_size < 0 then []
                     else py_range 0 (length all_contents) (nat batch_size))
                    [] w1 of
               (Inl e, w2) \<Rightarrow> (Inl e, w2)
             | (Inr response, w2) \<Rightarrow> push_to_comet env response collection_name w2))"

subsection \<open>The script\<close>

text \<open>The \<^verbatim>\<open>__main__\<close> block binds the module-level \<^verbatim>\<open>data_formatter\<close> and runs the two
  collections with \<^verbatim>\<open>batch_size=1\<close>; an exception of the first run ends the script.\<close>

definition main ::
  "module_env \<Rightarrow> (nat \<Rightarrow> string \<Rightarrow> error + pydict list) \<Rightarrow> world \<Rightarrow> (error + unit) \<times> world" where
  "main env gpt w =
     (let env' = env\<lparr>data_formatter_global := Some format_prompt\<rparr>;
          dataset_generator = DatasetGenerator () gpt format_prompt in
      case generate_training_data env' dataset_generator ''cleaned_articles'' 1 w of
        (Inl e, w1) \<Rightarrow> (Inl e, w1)
      | (Inr u, w1) \<Rightarrow> generate_training_data env' dataset_generator ''cleaned_posts'' 1 w1)"

section \<open>Reading a prompt back\<close>

text \<open>The lines of a text, as \<^verbatim>\<open>text.split("\n")\<close> gives them.\<close>

fun split_lines :: "string \<Rightarrow> string list" where
  "split_lines [] = [[]]"
| "split_lines (c # cs) =
     (if c = CHR 0x0A then [] # split_lines cs
      else (case split_lines cs of [] \<Rightarrow> [[c]] | l # ls \<Rightarrow> (c # l) # ls))"

definition is_digit :: "char \<Rightarrow> bool" where
  "is_digit c = (c \<in> set ''0123456789'')"

text \<open>A marker line: \<^verbatim>\<open>Content number\<close>, a space, and a decimal numeral, alone on its line.\<close>

definition is_marker :: "string \<Rightarrow> bool" where
  "is_marker l =
     (take 15 l = ''Content number '' \<and> drop 15 l \<noteq> [] \<and> list_all is_digit (drop 15 l))"

definition marker_lines :: "string \<Rightarrow> string list" where
  "marker_lines prompt = filter is_marker (split_lines prompt)"

section \<open>Concrete collaborators for the examples\<close>

text \<open>The text \<^verbatim>\<open>json.dump\<close> writes for a list of objects with text fields none of whose
  characters needs escaping.\<close>

fun join :: "string \<Rightarrow> string list \<Rightarrow> string" where
  "join sep [] = []"
| "join sep [x] = x"
| "join sep (x # y # ys) = x @ sep @ join sep (y # ys)"

fun json_value :: "pyval \<Rightarrow> string" where
  "json_value PyNone = ''null''"
| "json_value (PyStr s) = [CHR 0x22] @ s @ [CHR 0x22]"

definition json_object :: "pydict \<Rightarrow> string" where
  "json_object d =
     ''{'' @ join '', '' (map (\<lambda>kv. [CHR 0x22] @ fst kv @ [CHR 0x22] @ '': '' @ json_value (snd kv)) d) @ ''}''"

definition json_plain :: "pydict list \<Rightarrow> string" where
  "json_plain ds = ''['' @ join '', '' (map json_object ds) @ '']''"

text \<open>A store whose collection holds the given points, a file system and an experiment
  tracker that do not fail, and the module run as a script.\<close>

definition quiet_env :: "point list \<Rightarrow> module_env" where
  "quiet_env pts =
     \<lparr>scroll = (\<lambda>collection_name limit.
          Inr (take limit pts, if limit < length pts then Some limit else None)),
      json_dumps = json_plain,
      open_w = (\<lambda>file_name. None),
      experiment_init = None,
      artifact_init = (\<lambda>name. None),
      artifact_add = (\<lambda>file_name. None),
      log_artifact = None,
      experiment_end = None,
      data_formatter_global = Some format_prompt\<rparr>"

definition content_point :: "nat \<Rightarrow> string \<Rightarrow> point" where
  "content_point k s = \<lparr>point_id = k, payload = [(''cleaned_content'', PyStr s)]\<rparr>"

definition posts_ABC :: "point list" where
  "posts_ABC = [content_point 0 ''A'', content_point 1 ''B'', content_point 2 ''C'']"

definition fresh_world :: world where
  "fresh_world = \<lparr>files = Map.empty, logs = [], scroll_calls = [], sent = []\<rparr>"

text \<open>A completion client that answers from a fixed list of responses, in order.\<close>

definition scripted ::
  "(error + pydict list) list \<Rightarrow> nat \<Rightarrow> string \<Rightarrow> error + pydict list" where
  "scripted rs k prompt = (if k < length rs then rs ! k else Inl (External ''no response left''))"

definition generated :: "string \<Rightarrow> string \<Rightarrow> pydict" where
  "generated instruction content =
     [(''instruction'', PyStr instruction), (''content'', PyStr content)]"

section \<open>Facts about the builtins\<close>

subsection \<open>\<^verbatim>\<open>range\<close> and slices\<close>

lemma py_range_empty: "stop \<le> start \<Longrightarrow> py_range start stop step = []"
  by (simp add: py_range.simps)

lemma py_range_Cons:
  "0 < step \<Longrightarrow> start < stop \<Longrightarrow>
   py_range start stop step = start # py_range (start + step) stop step"
  by (subst py_range.simps) simp

lemma py_range_step1: "py_range a b (Suc 0) = [a..<b]"
proof (induction "b - a" arbitrary: a)
  case 0
  then show ?case by (simp add: py_range_empty)
next
  case (Suc n)
  then have lt: "a < b" and "n = b - Suc a" by arith+
  then have "py_range (Suc a) b (Suc 0) = [Suc a..<b]"
    using Suc.hyps(1) by blast
  with lt show ?case
    using py_range_Cons [of "Suc 0" a b] by (simp add: upt_conv_Cons)
qed

lemma ceil_step:
  fixes a n s :: nat
  assumes "0 < s" "a < n"
  shows "(n - a + s - 1) div s = Suc ((n - (a + s) + s - 1) div s)"
proof (cases "a + s \<le> n")
  case True
  define x where "x = n - (a + s) + s - 1"
  have "n - a + s - 1 = x + s" unfolding x_def using True assms by arith
  moreover have "(x + s) div s = Suc (x div s)" using assms by (simp add: div_add_self2)
  ultimately have "(n - a + s - 1) div s = Suc (x div s)" by (simp only:)
  then show ?thesis unfolding x_def .
next
  case False
  then have z: "n - (a + s) = 0" by simp
  have "(n - a + s - 1) div s = 1"
  proof (rule div_nat_eqI)
    show "s * 1 \<le> n - a + s - 1" using False assms by simp
    show "n - a + s - 1 < s * Suc 1" using False assms by simp
  qed
  moreover have "(s - 1) div s = 0" using assms by simp
  ultimately show ?thesis using z by (simp only: add_0 One_nat_def)
qed

lemma length_py_range:
  "0 < s \<Longrightarrow> length (py_range a n s) = (n - a + s - 1) div s"
proof (induction a n s rule: py_range.induct)
  case (1 start stop step)
  show ?case
  proof (cases "start < stop")
    case True
    with 1 have "length (py_range start stop step)
        = Suc ((stop - (start + step) + step - 1) div step)"
      by (simp add: py_range_Cons)
    also have "\<dots> = (stop - start + step - 1) div step"
      using ceil_step [OF "1.prems" True] by simp
    finally show ?thesis .
  next
    case False
    with 1 show ?thesis by (simp add: py_range_empty)
  qed
qed





section \<open>Facts about the generator\<close>

subsection \<open>The content overwrite\<close>

lemma overwrite_contents_error:
  "overwrite_contents js all_contents response = Inl e \<Longrightarrow> e = IndexError"
  by (induction js arbitrary: response) (auto split: if_splits)

lemma overwrite_contents_length:
  "overwrite_contents js all_contents response = Inr response' \<Longrightarrow>
   length response' = length response"
  by (induction js arbitrary: response) (auto split: if_splits)

lemma overwrite_contents_in_range:
  "(\<And>j. j \<in> set js \<Longrightarrow> j < length all_contents \<and> j < length response) \<Longrightarrow>
   \<exists>response'. overwrite_contents js all_contents response = Inr response'"
proof (induction js arbitrary: response)
  case Nil
  then show ?case by simp
next
  case (Cons j js)
  let ?r = "response[j := dict_set ''content'' (all_contents ! j) (response ! j)]"
  have "\<And>k. k \<in> set js \<Longrightarrow> k < length all_contents \<and> k < length ?r"
    using Cons.prems by simp
  then obtain response' where "overwrite_contents js all_contents ?r = Inr response'"
    using Cons.IH by blast
  moreover have "j < length all_contents \<and> j < length response"
    using Cons.prems by simp
  ultimately show ?case by simp
qed

lemma overwrite_contents_out_of_range:
  "j \<in> set js \<Longrightarrow> length all_contents \<le> j \<or> length response \<le> j \<Longrightarrow>
   overwrite_contents js all_contents response = Inl IndexError"
proof (induction js arbitrary: response)
  case Nil
  then show ?case by simp
next
  case (Cons k js)
  show ?case
  proof (cases "length all_contents \<le> k \<or> length response \<le> k")
    case True
    then show ?thesis by auto
  next
    case False
    with Cons.prems have "j \<in> set js" by auto
    moreover have "length all_contents \<le> j \<or>
        length (response[k := dict_set ''content'' (all_contents ! k) (response ! k)]) \<le> j"
      using Cons.prems by simp
    ultimately show ?thesis using Cons.IH False by simp
  qed
qed

subsection \<open>Fetching\<close>

lemma collect_cleaned_eq:
  "collect_cleaned points acc =
     (if \<forall>p \<in> set points. map_of (payload p) ''cleaned_content'' \<noteq> None
      then Inr (acc @ filter truthy
                  (map (\<lambda>p. the (map_of (payload p) ''cleaned_content'')) points))
      else Inl (KeyError ''cleaned_content''))"
  by (induction points arbitrary: acc) (auto split: option.splits)

lemma fetch_sent:
  "sent (snd (fetch_all_cleaned_content env c w)) = sent w"
  by (simp add: fetch_all_cleaned_content_def Let_def split: sum.splits)

lemma fetch_files:
  "files (snd (fetch_all_cleaned_content env c w)) = files w"
  by (simp add: fetch_all_cleaned_content_def Let_def split: sum.splits)

subsection \<open>Pushing\<close>

lemma push_to_comet_try_sent:
  "sent (snd (push_to_comet_try env d c w)) = sent w"
  by (simp add: push_to_comet_try_def logging_info_def Let_def split: option.splits)

lemma push_to_comet_try_files:
  "files (snd (push_to_comet_try env d c w)) =
     (if experiment_init env = None \<and> open_w env (c @ ''.json'') = None
      then (files w)(c @ ''.json'' \<mapsto> json_dumps env d) else files w)"
  by (simp add: push_to_comet_try_def logging_info_def Let_def split: option.splits)

lemma push_to_comet_fst: "fst (push_to_comet env d c w) = Inr ()"
  by (simp add: push_to_comet_def split: prod.splits sum.splits)

lemma push_to_comet_sent: "sent (snd (push_to_comet env d c w)) = sent w"
proof (cases "push_to_comet_try env d c w")
  case (Pair r w')
  with push_to_comet_try_sent [of env d c w] show ?thesis
    by (cases r) (simp_all add: push_to_comet_def logging_error_def)
qed

lemma push_to_comet_files:
  "files (snd (push_to_comet env d c w)) =
     (if experiment_init env = None \<and> open_w env (c @ ''.json'') = None
      then (files w)(c @ ''.json'' \<mapsto> json_dumps env d) else files w)"
proof (cases "push_to_comet_try env d c w")
  case (Pair r w')
  with push_to_comet_try_files [of env d c w] show ?thesis
    by (cases r) (simp_all add: push_to_comet_def logging_error_def)
qed

lemma push_to_comet_logged:
  "fst (push_to_comet_try env d c w) = Inl e \<Longrightarrow>
   logs (snd (push_to_comet env d c w)) =
     logs (snd (push_to_comet_try env d c w))
       @ [(ERROR, ''Failed to push data to Comet: '' @ str_error e)]"
  by (cases "push_to_comet_try env d c w")
     (simp add: push_to_comet_def logging_error_def)

subsection \<open>The batch loop\<close>

text \<open>The loop touches the world only by recording the prompts it sends, and what it does
  depends on the world only through the number of prompts the client has seen.\<close>

lemma process_batches_world:
  "\<exists>res new. \<forall>w. length (sent w) = n \<longrightarrow>
     process_batches g cl all_contents b idxs response w = (res, w\<lparr>sent := sent w @ new\<rparr>)"
proof (induction idxs arbitrary: response n)
  case Nil
  have "\<forall>w. length (sent w) = n \<longrightarrow>
     process_batches g cl all_contents b [] response w = (Inr response, w\<lparr>sent := sent w @ []\<rparr>)"
    by simp
  then show ?case by blast
next
  case (Cons i rest)
  show ?case
  proof (cases g)
    case None
    then have "\<forall>w. length (sent w) = n \<longrightarrow>
       process_batches g cl all_contents b (i # rest) response w
         = (Inl (NameError ''data_formatter''), w\<lparr>sent := sent w @ []\<rparr>)"
      by simp
    then show ?thesis by blast
  next
    case (Some fmt)
    define p where "p = fmt (py_slice all_contents i (i + b)) (int i)"
    show ?thesis
    proof (cases "cl n p")
      case (Inl e)
      with Some have "\<forall>w. length (sent w) = n \<longrightarrow>
         process_batches g cl all_contents b (i # rest) response w
           = (Inl e, w\<lparr>sent := sent w @ [p]\<rparr>)"
        by (simp add: p_def Let_def)
      then show ?thesis by blast
    next
      case (Inr objs)
      show ?thesis
      proof (cases "overwrite_contents (py_range i (i + b) 1) all_contents (response @ objs)")
        case (Inl e)
        with Some Inr have "\<forall>w. length (sent w) = n \<longrightarrow>
           process_batches g cl all_contents b (i # rest) response w
             = (Inl e, w\<lparr>sent := sent w @ [p]\<rparr>)"
          by (simp add: p_def Let_def)
        then show ?thesis by blast
      next
        case ovw: (Inr response')
        from Cons.IH [of "Suc n" response'] obtain res new where
          ih: "\<And>w. length (sent w) = Suc n \<Longrightarrow>
             process_batches g cl all_contents b rest response' w
               = (res, w\<lparr>sent := sent w @ new\<rparr>)"
          by blast
        have "\<forall>w. length (sent w) = n \<longrightarrow>
           process_batches g cl all_contents b (i # rest) response w
             = (res, w\<lparr>sent := sent w @ (p # new)\<rparr>)"
        proof (intro allI impI)
          fix w :: world
          assume n: "length (sent w) = n"
          then have "length (sent (w\<lparr>sent := sent w @ [p]\<rparr>)) = Suc n" by simp
          from ih [OF this] Some Inr ovw n show
            "process_batches g cl all_contents b (i # rest) response w
               = (res, w\<lparr>sent := sent w @ (p # new)\<rparr>)"
            by (simp add: p_def Let_def)
        qed
        then show ?thesis by blast
      qed
    qed
  qed
qed

lemma process_batches_sent:
  "\<exists>new. sent (snd (process_batches g cl all_contents b idxs response w)) = sent w @ new"
  using process_batches_world [of "length (sent w)" g cl all_contents b idxs response]
  by force

lemma process_batches_files:
  "files (snd (process_batches g cl all_contents b idxs response w)) = files w"
  using process_batches_world [of "length (sent w)" g cl all_contents b idxs response]
  by force

text \<open>A call that failed is the last call of the loop, and its exception is the loop's.\<close>

lemma process_batches_failed_call:
  "process_batches g cl all_contents b idxs response w = (res, w') \<Longrightarrow>
   length (sent w) \<le> k \<Longrightarrow> k < length (sent w') \<Longrightarrow> cl k (sent w' ! k) = Inl e \<Longrightarrow>
   res = Inl e \<and> Suc k = length (sent w')"
proof (induction idxs arbitrary: response w)
  case Nil
  then show ?case by simp
next
  case (Cons i rest)
  show ?case
  proof (cases g)
    case None
    with Cons.prems show ?thesis by simp
  next
    case (Some fmt)
    define p where "p = fmt (py_slice all_contents i (i + b)) (int i)"
    define w1 where "w1 = w\<lparr>sent := sent w @ [p]\<rparr>"
    show ?thesis
    proof (cases "cl (length (sent w)) p")
      case (Inl e0)
      with Some Cons.prems(1) have r: "res = Inl e0" "w' = w1"
        by (simp_all add: p_def w1_def Let_def)
      with Cons.prems(2,3) have "k = length (sent w)" by (simp add: w1_def)
      with r Cons.prems(4) Inl show ?thesis by (simp add: w1_def)
    next
      case (Inr objs)
      show ?thesis
      proof (cases "overwrite_contents (py_range i (i + b) 1) all_contents (response @ objs)")
        case (Inl e0)
        with Some Inr Cons.prems(1) have r: "res = Inl e0" "w' = w1"
          by (simp_all add: p_def w1_def Let_def)
        with Cons.prems(2,3) have "k = length (sent w)" by (simp add: w1_def)
        with r Cons.prems(4) Inr show ?thesis by (simp add: w1_def)
      next
        case ovw: (Inr response')
        with Some Inr Cons.prems(1) have
          rec: "process_batches g cl all_contents b rest response' w1 = (res, w')"
          by (simp add: p_def w1_def Let_def)
        from process_batches_sent [of g cl all_contents b rest response' w1] rec
        obtain new where new: "sent w' = sent w @ p # new" by (auto simp: w1_def)
        show ?thesis
        proof (cases "k = length (sent w)")
          case True
          with new have "sent w' ! k = p" by simp
          with True Inr Cons.prems(4) show ?thesis by simp
        next
          case False
          with Cons.prems(2) have "length (sent w1) \<le> k" by (simp add: w1_def)
          from Cons.IH [OF rec this Cons.prems(3,4)] show ?thesis .
        qed
      qed
    qed
  qed
qed

text \<open>Whatever stops the loop, the prompts it has sent are those of a leading part of
  the index list, in order, each built by the module-level formatter.\<close>

lemma process_batches_prefix:
  "\<exists>k \<le> length idxs.
     sent (snd (process_batches (Some fmt) cl all_contents b idxs response w))
       = sent w @ map (\<lambda>i. fmt (py_slice all_contents i (i + b)) (int i)) (take k idxs)"
proof (induction idxs arbitrary: response w)
  case Nil
  then show ?case by simp
next
  case (Cons i rest)
  define p where "p = fmt (py_slice all_contents i (i + b)) (int i)"
  define w1 where "w1 = w\<lparr>sent := sent w @ [p]\<rparr>"
  let ?f = "\<lambda>i. fmt (py_slice all_contents i (i + b)) (int i)"
  have one: "sent w1 = sent w @ map ?f (take (Suc 0) (i # rest))"
    by (simp add: w1_def p_def)
  show ?case
  proof (cases "cl (length (sent w)) p")
    case (Inl e)
    then have "process_batches (Some fmt) cl all_contents b (i # rest) response w = (Inl e, w1)"
      by (simp add: p_def w1_def Let_def)
    with one have "sent (snd (process_batches (Some fmt) cl all_contents b (i # rest) response w))
       = sent w @ map ?f (take (Suc 0) (i # rest))" by simp
    moreover have "Suc 0 \<le> length (i # rest)" by simp
    ultimately show ?thesis by blast
  next
    case (Inr objs)
    show ?thesis
    proof (cases "overwrite_contents (py_range i (i + b) 1) all_contents (response @ objs)")
      case (Inl e)
      with Inr have "process_batches (Some fmt) cl all_contents b (i # rest) response w = (Inl e, w1)"
        by (simp add: p_def w1_def Let_def)
      with one have "sent (snd (process_batches (Some fmt) cl all_contents b (i # rest) response w))
         = sent w @ map ?f (take (Suc 0) (i # rest))" by simp
      moreover have "Suc 0 \<le> length (i # rest)" by simp
      ultimately show ?thesis by blast
    next
      case ovw: (Inr response')
      with Inr have rec: "process_batches (Some fmt) cl all_contents b (i # rest) response w
          = process_batches (Some fmt) cl all_contents b rest response' w1"
        by (simp add: p_def w1_def Let_def)
      from Cons.IH [of response' w1] obtain k where k: "k \<le> length rest"
        "sent (snd (process_batches (Some fmt) cl all_contents b rest response' w1))
           = sent w1 @ map ?f (take k rest)" by blast
      then have "sent (snd (process_batches (Some fmt) cl all_contents b (i # rest) response w))
           = sent w @ map ?f (take (Suc k) (i # rest))"
        using rec by (simp add: w1_def p_def)
      moreover have "Suc k \<le> length (i # rest)" using k by simp
      ultimately show ?thesis by blast
    qed
  qed
qed


text \<open>The same, asking of the client only what it answers to the prompts the run sends:
  the \<open>K\<close>-th call receives the prompt of the \<open>K\<close>-th batch.\<close>

lemma process_batches_answered_at_sent:
  assumes b: "0 < b"
    and cl: "\<And>K. K * b < length all_contents \<Longrightarrow>
           \<exists>objs. cl (s0 + K) (fmt (py_slice all_contents (K * b) (K * b + b)) (int (K * b)))
                    = Inr objs
              \<and> length objs = length (py_slice all_contents (K * b) (K * b + b))"
  shows "q * b \<le> length all_contents \<Longrightarrow> length response = q * b \<Longrightarrow>
         length (sent w) = s0 + q \<Longrightarrow>
         sent (snd (process_batches (Some fmt) cl all_contents b
                     (py_range (q * b) (length all_contents) b) response w))
           = sent w @ map (\<lambda>j. fmt (py_slice all_contents j (j + b)) (int j))
                        (py_range (q * b) (length all_contents) b)
         \<and> (if b dvd length all_contents
            then \<exists>response'. fst (process_batches (Some fmt) cl all_contents b
                     (py_range (q * b) (length all_contents) b) response w) = Inr response'
            else fst (process_batches (Some fmt) cl all_contents b
                     (py_range (q * b) (length all_contents) b) response w) = Inl IndexError)"
proof (induction "length all_contents - q * b" arbitrary: q response w rule: less_induct)
  case less
  let ?n = "length all_contents"
  let ?i = "q * b"
  let ?f = "\<lambda>j. fmt (py_slice all_contents j (j + b)) (int j)"
  show ?case
  proof (cases "?i < ?n")
    case False
    with less.prems(1) have eq: "?i = ?n" by simp
    then have e: "py_range ?i ?n b = []" by (simp add: py_range_empty)
    have "b dvd ?n" using eq by (metis dvd_triv_right)
    then show ?thesis unfolding e by simp
  next
    case True
    define p where "p = ?f ?i"
    define w1 where "w1 = w\<lparr>sent := sent w @ [p]\<rparr>"
    from cl [OF True] less.prems(3) obtain objs where
      call: "cl (length (sent w)) p = Inr objs"
      and lo: "length objs = min b (?n - ?i)"
      by (auto simp add: p_def py_slice_def min.commute)
    have rng: "py_range ?i ?n b = ?i # py_range (Suc q * b) ?n b"
      using py_range_Cons [OF b True] by (simp add: add.commute)
    have s1: "sent w1 = sent w @ [p]" by (simp add: w1_def)
    show ?thesis
    proof (cases "?i + b \<le> ?n")
      case le: True
      with lo have lb: "length objs = b" by simp
      have "\<exists>r1. overwrite_contents [?i..<?i + b] all_contents (response @ objs) = Inr r1"
        by (rule overwrite_contents_in_range) (use le lb less.prems(2) in auto)
      then obtain r1 where
        ov: "overwrite_contents [?i..<?i + b] all_contents (response @ objs) = Inr r1"
        by blast
      from overwrite_contents_length [OF ov] lb less.prems(2)
      have len1: "length r1 = Suc q * b" by simp
      have m: "?n - Suc q * b < ?n - ?i" using True b by simp
      have le1: "Suc q * b \<le> ?n" using le by (simp add: add.commute)
      have l1: "length (sent w1) = s0 + Suc q" using less.prems(3) by (simp add: w1_def)
      note ih = less.hyps [OF m le1 len1 l1]
      have run: "process_batches (Some fmt) cl all_contents b
              (?i # py_range (Suc q * b) ?n b) response w
          = process_batches (Some fmt) cl all_contents b (py_range (Suc q * b) ?n b) r1 w1"
        using call ov by (simp add: p_def w1_def Let_def py_range_step1)
      let ?rec = "process_batches (Some fmt) cl all_contents b (py_range (Suc q * b) ?n b) r1 w1"
      have a: "sent (snd ?rec) = sent w @ map ?f (?i # py_range (Suc q * b) ?n b)"
        unfolding ih [THEN conjunct1] s1 p_def by simp
      show ?thesis unfolding rng run
      proof (rule conjI)
        show "sent (snd ?rec) = sent w @ map ?f (?i # py_range (Suc q * b) ?n b)"
          by (fact a)
        show "if b dvd ?n then \<exists>response'. fst ?rec = Inr response'
              else fst ?rec = Inl IndexError"
          by (fact ih [THEN conjunct2])
      qed
    next
      case gt: False
      have "overwrite_contents [?i..<?i + b] all_contents (response @ objs) = Inl IndexError"
        by (rule overwrite_contents_out_of_range [of ?n]) (use gt True in auto)
      then have run: "process_batches (Some fmt) cl all_contents b [?i] response w
          = (Inl IndexError, w1)"
        using call by (simp add: p_def w1_def Let_def py_range_step1)
      have e: "py_range (Suc q * b) ?n b = []"
        using gt by (simp add: py_range_empty add.commute)
      have nd: "\<not> b dvd ?n"
      proof
        assume "b dvd ?n"
        then obtain m where m: "?n = b * m" by (auto simp add: dvd_def)
        with True have "q * b < m * b" by (simp add: mult.commute)
        then have "q < m" by simp
        then have "Suc q \<le> m" by simp
        then have "Suc q * b \<le> m * b" by (rule mult_le_mono1)
        with m gt show False by (simp add: mult.commute add.commute)
      qed
      show ?thesis
        unfolding rng run e using nd by (simp add: s1 p_def)
    qed
  qed
qed

subsection \<open>The whole run\<close>

lemma generate_training_data_batches:
  "fetch_all_cleaned_content env c w = (Inr all_contents, w1) \<Longrightarrow> 0 < b \<Longrightarrow>
   generate_training_data env self c (int b) w =
     (case process_batches (data_formatter_global env) (api_communicator self) all_contents b
             (py_range 0 (length all_contents) b) [] w1 of
        (Inl e, w2) \<Rightarrow> (Inl e, w2)
      | (Inr response, w2) \<Rightarrow> push_to_comet env response c w2)"
  by (simp add: generate_training_data_def)

lemma generate_training_data_sent:
  assumes "fetch_all_cleaned_content env c w = (Inr all_contents, w1)" and "0 < b"
  shows "sent (snd (generate_training_data env self c (int b) w)) =
     sent (snd (process_batches (data_formatter_global env) (api_communicator self) all_contents b
             (py_range 0 (length all_contents) b) [] w1))"
proof (cases "process_batches (data_formatter_global env) (api_communicator self) all_contents b
             (py_range 0 (length all_contents) b) [] w1")
  case (Pair res w2)
  then show ?thesis
    unfolding generate_training_data_batches [OF assms]
    by (cases res) (simp_all add: push_to_comet_sent)
qed

lemma generate_training_data_fst:
  assumes "fetch_all_cleaned_content env c w = (Inr all_contents, w1)" and "0 < b"
  shows "fst (generate_training_data env self c (int b) w) =
     (case fst (process_batches (data_formatter_global env) (api_communicator self) all_contents b
             (py_range 0 (length all_contents) b) [] w1) of
        Inl e \<Rightarrow> Inl e | Inr response \<Rightarrow> Inr ())"
proof (cases "process_batches (data_formatter_global env) (api_communicator self) all_contents b
             (py_range 0 (length all_contents) b) [] w1")
  case (Pair res w2)
  then show ?thesis
    unfolding generate_training_data_batches [OF assms]
    by (cases res) (simp_all add: push_to_comet_fst)
qed

lemma generate_training_data_files_raised:
  assumes "fst (generate_training_data env self c b w) = Inl e"
  shows "files (snd (generate_training_data env self c b w)) = files w"
proof (cases "fetch_all_cleaned_content env c w")
  case (Pair r w1)
  have f1: "files w1 = files w" using fetch_files [of env c w] Pair by simp
  show ?thesis
  proof (cases r)
    case (Inl e1)
    with Pair f1 show ?thesis by (simp add: generate_training_data_def)
  next
    case (Inr all_contents)
    show ?thesis
    proof (cases "b = 0")
      case True
      with Pair Inr f1 show ?thesis by (simp add: generate_training_data_def)
    next
      case False
      let ?run = "process_batches (data_formatter_global env) (api_communicator self)
                    all_contents (nat b)
                    (if b < 0 then [] else py_range 0 (length all_contents) (nat b)) [] w1"
      obtain res w2 where run: "?run = (res, w2)" by (cases ?run)
      then have f2: "files w2 = files w1"
        using process_batches_files [of _ _ all_contents "nat b" _ "[]" w1] by (metis snd_conv)
      show ?thesis
      proof (cases res)
        case (Inl e2)
        with Pair Inr False run f1 f2 show ?thesis by (simp add: generate_training_data_def)
      next
        case inr: (Inr response)
        with Pair Inr False run assms show ?thesis
          by (simp add: generate_training_data_def push_to_comet_fst)
      qed
    qed
  qed
qed

section \<open>Facts about the prompt formatter\<close>

subsection \<open>Lines of a text\<close>

lemma split_lines_not_Nil: "split_lines s \<noteq> []"
  by (induction s) (auto split: list.splits)

lemma split_lines_append_newline:
  "split_lines (a @ CHR 0x0A # b) = split_lines a @ split_lines b"
proof (induction a)
  case Nil
  show ?case by simp
next
  case (Cons c a)
  obtain l ls where "split_lines a = l # ls"
    using split_lines_not_Nil [of a] by (cases "split_lines a") auto
  with Cons show ?case by simp
qed

lemma split_lines_one: "CHR 0x0A \<notin> set s \<Longrightarrow> split_lines s = [s]"
  by (induction s) auto

lemma split_lines_blocks:
  "(\<And>k. k \<in> set ks \<Longrightarrow> CHR 0x0A \<notin> set (m k)) \<Longrightarrow>
   split_lines (concat (map (\<lambda>k. m k @ CHR 0x0A # x k @ [CHR 0x0A]) ks))
     = concat (map (\<lambda>k. m k # split_lines (x k)) ks) @ [[]]"
proof (induction ks)
  case Nil
  show ?case by simp
next
  case (Cons k ks)
  let ?rest = "concat (map (\<lambda>k. m k @ CHR 0x0A # x k @ [CHR 0x0A]) ks)"
  have "split_lines ((m k @ CHR 0x0A # x k @ [CHR 0x0A]) @ ?rest)
      = split_lines (m k) @ split_lines (x k @ CHR 0x0A # ?rest)"
    using split_lines_append_newline [of "m k" "x k @ CHR 0x0A # ?rest"] by simp
  also have "\<dots> = [m k] @ split_lines (x k) @ split_lines ?rest"
    using Cons.prems [of k] by (simp add: split_lines_one split_lines_append_newline)
  finally show ?case using Cons by simp
qed

subsection \<open>Decimal numerals\<close>

lemma is_digit_digit_char: "d < 10 \<Longrightarrow> is_digit (digit_char d)"
proof -
  assume "d < 10"
  then have "d < length ''0123456789''" by simp
  then have "''0123456789'' ! d \<in> set ''0123456789''" by (rule nth_mem)
  then show ?thesis by (simp only: is_digit_def digit_char_def)
qed

lemma str_nat_digits: "str_nat n \<noteq> [] \<and> list_all is_digit (str_nat n)"
proof (induction n rule: str_nat.induct)
  case (1 n)
  show ?case
  proof (cases "n < 10")
    case True
    then show ?thesis by (subst (1 2) str_nat.simps) (simp add: is_digit_digit_char)
  next
    case False
    with 1 have "str_nat (n div 10) \<noteq> [] \<and> list_all is_digit (str_nat (n div 10))" by simp
    moreover have "is_digit (digit_char (n mod 10))" by (simp add: is_digit_digit_char)
    ultimately show ?thesis using False by (subst (1 2) str_nat.simps) simp
  qed
qed

lemma is_digit_not_newline: "is_digit c \<Longrightarrow> c \<noteq> CHR 0x0A"
  by (auto simp add: is_digit_def)

lemma str_nat_no_newline: "CHR 0x0A \<notin> set (str_nat n)"
  using str_nat_digits [of n] is_digit_not_newline by (auto simp add: list_all_iff)

lemma str_int_nonneg: "0 \<le> i \<Longrightarrow> str_int i = str_nat (nat i)"
  by (simp add: str_int_def)

lemma marker_is_marker: "0 \<le> i \<Longrightarrow> is_marker (''Content number '' @ str_int i)"
  using str_nat_digits [of "nat i"] by (simp add: is_marker_def str_int_nonneg)

lemma marker_no_newline: "0 \<le> i \<Longrightarrow> CHR 0x0A \<notin> set (''Content number '' @ str_int i)"
  using str_nat_no_newline [of "nat i"] by (simp add: str_int_nonneg)

subsection \<open>The formatter in closed form\<close>

lemma upt_0_Suc_map: "[0..<Suc n] = 0 # map Suc [0..<n]"
  by (simp add: upt_conv_Cons map_Suc_upt del: upt_Suc)

lemma format_data_loop_closed:
  "format_data_loop False start_index index data_points acc =
     acc @ concat (map (\<lambda>k. ''Content number '' @ str_int (start_index + index + int k)
                              @ CHR 0x0A # py_str (data_points ! k) @ [CHR 0x0A])
                     [0..<length data_points])"
proof (induction data_points arbitrary: index acc)
  case Nil
  show ?case by simp
next
  case (Cons x xs)
  have "map (\<lambda>k. ''Content number '' @ str_int (start_index + index + int k)
                              @ CHR 0x0A # py_str ((x # xs) ! k) @ [CHR 0x0A])
            [0..<length (x # xs)]
      = (''Content number '' @ str_int (start_index + index) @ CHR 0x0A # py_str x @ [CHR 0x0A])
        # map (\<lambda>k. ''Content number '' @ str_int (start_index + (index + 1) + int k)
                              @ CHR 0x0A # py_str (xs ! k) @ [CHR 0x0A])
            [0..<length xs]"
    unfolding length_Cons upt_0_Suc_map by (simp add: comp_def ac_simps)
  then show ?case using Cons [of "index + 1"] by simp
qed

subsection \<open>The lines of a prompt\<close>

lemma USER_PROMPT_last: "USER_PROMPT = butlast USER_PROMPT @ [CHR 0x0A]"
  by (simp add: USER_PROMPT_def)

lemma USER_PROMPT_one_line: "CHR 0x0A \<notin> set (butlast USER_PROMPT)"
  by (simp add: USER_PROMPT_def)

lemma USER_PROMPT_no_marker: "\<not> is_marker (butlast USER_PROMPT)"
  by (simp add: USER_PROMPT_def is_marker_def)

lemma format_prompt_closed:
  "format_prompt inference_posts start_index =
     USER_PROMPT
     @ ''You must generate exactly a list of '' @ str_int (int (length inference_posts))
     @ '' json objects, using the contents provided under CONTENTS FOR GENERATION\<newline>''
     @ ''\<newline>CONTENTS FOR GENERATION: \<newline>''
     @ concat (map (\<lambda>k. ''Content number '' @ str_int (start_index + int k)
                          @ CHR 0x0A # py_str (inference_posts ! k) @ [CHR 0x0A])
                 [0..<length inference_posts])"
  by (simp add: format_prompt_def format_batch_def format_data_def format_data_loop_closed)

lemma split_lines_format_prompt:
  assumes "0 \<le> start_index"
  shows "split_lines (format_prompt inference_posts start_index) =
     [butlast USER_PROMPT,
      ''You must generate exactly a list of '' @ str_int (int (length inference_posts))
        @ '' json objects, using the contents provided under CONTENTS FOR GENERATION'',
      [],
      ''CONTENTS FOR GENERATION: '']
     @ concat (map (\<lambda>k. (''Content number '' @ str_int (start_index + int k))
                          # split_lines (py_str (inference_posts ! k)))
                 [0..<length inference_posts])
     @ [[]]"
proof -
  let ?count = "''You must generate exactly a list of '' @ str_int (int (length inference_posts))
        @ '' json objects, using the contents provided under CONTENTS FOR GENERATION''"
  let ?head = "''CONTENTS FOR GENERATION: ''"
  let ?m = "\<lambda>k. ''Content number '' @ str_int (start_index + int k)"
  let ?x = "\<lambda>k. py_str (inference_posts ! k)"
  let ?data = "concat (map (\<lambda>k. ?m k @ CHR 0x0A # ?x k @ [CHR 0x0A])
                 [0..<length inference_posts])"
  have shape: "format_prompt inference_posts start_index =
      butlast USER_PROMPT @ CHR 0x0A # (?count @ CHR 0x0A # ([] @ CHR 0x0A #
        (?head @ CHR 0x0A # ?data)))"
    by (subst format_prompt_closed, subst USER_PROMPT_last) simp
  have count: "CHR 0x0A \<notin> set ?count"
    using str_nat_no_newline [of "length inference_posts"] by (simp add: str_int_nonneg)
  have head: "CHR 0x0A \<notin> set ?head" by simp
  have data: "split_lines ?data
      = concat (map (\<lambda>k. ?m k # split_lines (?x k)) [0..<length inference_posts]) @ [[]]"
    by (rule split_lines_blocks) (use assms marker_no_newline in simp)
  show ?thesis
    unfolding shape split_lines_append_newline
      split_lines_one [OF USER_PROMPT_one_line] split_lines_one [OF count]
      split_lines_one [OF head] data
    by simp
qed

lemma marker_lines_format_prompt:
  assumes "0 \<le> start_index"
  shows "marker_lines (format_prompt inference_posts start_index) =
     concat (map (\<lambda>k. (''Content number '' @ str_int (start_index + int k))
                          # marker_lines (py_str (inference_posts ! k)))
                 [0..<length inference_posts])"
proof -
  have count: "\<not> is_marker (''You must generate exactly a list of '' @ n
        @ '' json objects, using the contents provided under CONTENTS FOR GENERATION'')" for n
    by (simp add: is_marker_def)
  have head: "\<not> is_marker ''CONTENTS FOR GENERATION: ''" by (simp add: is_marker_def)
  have empty: "\<not> is_marker []" by (simp add: is_marker_def)
  have m: "is_marker (''Content number '' @ str_int (start_index + int k))" for k
    using assms by (intro marker_is_marker) simp
  have "filter is_marker (concat (map (\<lambda>k. (''Content number '' @ str_int (start_index + int k))
                          # split_lines (py_str (inference_posts ! k))) ks))
      = concat (map (\<lambda>k. (''Content number '' @ str_int (start_index + int k))
                          # marker_lines (py_str (inference_posts ! k))) ks)" for ks
    by (induction ks) (simp_all add: m [simplified] marker_lines_def)
  then show ?thesis
    unfolding marker_lines_def [of "format_prompt inference_posts start_index"]
      split_lines_format_prompt [OF assms]
    by (simp add: USER_PROMPT_no_marker count [simplified] head [simplified] empty)
qed

section \<open>The claims\<close>

subsection \<open>C1: the scenario of three records and a batch size of two\<close>

text \<open>
  Claim C1 says that each returned object gets the record text of its position and that the
  batches' results are accumulated in order, so that the collection \<^verbatim>\<open>["A","B","C"]\<close> with
  \<^verbatim>\<open>batch_size=2\<close> and the responses \<^verbatim>\<open>[i1, i2]\<close> then \<^verbatim>\<open>[i3]\<close> ends with the dataset
  \<^verbatim>\<open>[(i1,A), (i2,B), (i3,C)]\<close>. The code does not get there. Both prompts are sent, the
  second response is appended, and then the inner loop runs \<open>j\<close> over \<^verbatim>\<open>range(2, 4)\<close>: at
  \<open>j = 3\<close> the read \<^verbatim>\<open>all_contents[3]\<close> raises \<^verbatim>\<open>IndexError\<close>. The exception leaves
  \<^verbatim>\<open>generate_training_data\<close>, \<^verbatim>\<open>push_to_comet\<close> is never called and no file is written.
\<close>

theorem spec_scenario_raises_IndexError:
  "fst (generate_training_data (quiet_env posts_ABC)
          (DatasetGenerator ()
             (scripted [Inr [generated ''i1'' ''0'', generated ''i2'' ''1''],
                        Inr [generated ''i3'' ''2'']])
             format_prompt)
          ''cleaned_posts'' 2 fresh_world) = Inl IndexError
   \<and> files (snd (generate_training_data (quiet_env posts_ABC)
          (DatasetGenerator ()
             (scripted [Inr [generated ''i1'' ''0'', generated ''i2'' ''1''],
                        Inr [generated ''i3'' ''2'']])
             format_prompt)
          ''cleaned_posts'' 2 fresh_world)) ''cleaned_posts.json'' = None
   \<and> sent (snd (generate_training_data (quiet_env posts_ABC)
          (DatasetGenerator ()
             (scripted [Inr [generated ''i1'' ''0'', generated ''i2'' ''1''],
                        Inr [generated ''i3'' ''2'']])
             format_prompt)
          ''cleaned_posts'' 2 fresh_world))
       = [format_prompt [PyStr ''A'', PyStr ''B''] 0, format_prompt [PyStr ''C''] 2]"
  by (simp add: generate_training_data_def fetch_all_cleaned_content_def quiet_env_def
      posts_ABC_def content_point_def DatasetGenerator_def scripted_def generated_def
      fresh_world_def py_range.simps py_slice_def Let_def)

subsection \<open>C2: a collection that the batch size does not divide\<close>

text \<open>
  Claim C2 says that whenever the number of records is not a multiple of \<^verbatim>\<open>batch_size\<close>
  (and \<^verbatim>\<open>batch_size > 1\<close>), \<^verbatim>\<open>generate_training_data\<close> raises an index-out-of-range error
  in the overwrite step of the final batch. When the module is imported, the module-level
  name \<^verbatim>\<open>data_formatter\<close> is unbound and the run never gets to an overwrite step: for the
  three records \<^verbatim>\<open>["A","B","C"]\<close>, \<^verbatim>\<open>batch_size=2\<close> and a client that returns one object per
  record, it raises \<^verbatim>\<open>NameError\<close> on the first batch.
\<close>

theorem short_final_batch_unbound_formatter_counterexample:
  "fst (generate_training_data ((quiet_env posts_ABC)\<lparr>data_formatter_global := None\<rparr>)
     (DatasetGenerator ()
        (scripted [Inr [generated ''i1'' ''0'', generated ''i2'' ''1''],
                   Inr [generated ''i3'' ''2'']]) format_prompt)
     ''cleaned_posts'' 2 fresh_world) = Inl (NameError ''data_formatter'')"
  by (simp add: generate_training_data_def fetch_all_cleaned_content_def quiet_env_def
      posts_ABC_def content_point_def DatasetGenerator_def scripted_def generated_def
      fresh_world_def py_range.simps py_slice_def Let_def)

text \<open>
  Claim C2 as amended: when the module-level name \<^verbatim>\<open>data_formatter\<close> is bound, the number
  of records is not a multiple of \<^verbatim>\<open>batch_size\<close> and \<^verbatim>\<open>batch_size > 1\<close>,
  \<^verbatim>\<open>generate_training_data\<close> raises an index-out-of-range error in the overwrite step of the
  final, shorter batch, even when the completion client returns exactly one object per
  record. The client is asked for nothing but its answers to the prompts the run sends:
  the \<open>k\<close>-th call, on the prompt of the \<open>k\<close>-th batch, returns as many objects as that
  batch holds. Then the run raises \<^verbatim>\<open>IndexError\<close>; it does so after the prompt of every
  batch, the last one included, has been sent (there are \<open>\<lceil>n / b\<rceil>\<close> of them); and no
  file is written.
\<close>

theorem short_final_batch_raises_IndexError:
  assumes "1 < b"
    and "\<not> b dvd length all_contents"
    and "fetch_all_cleaned_content env c w = (Inr all_contents, w1)"
    and "data_formatter_global env = Some fmt"
    and "\<And>k. k * b < length all_contents \<Longrightarrow>
           \<exists>objs. api_communicator self (length (sent w) + k)
                      (fmt (py_slice all_contents (k * b) (k * b + b)) (int (k * b))) = Inr objs
              \<and> length objs = length (py_slice all_contents (k * b) (k * b + b))"
  shows "fst (generate_training_data env self c (int b) w) = Inl IndexError
       \<and> sent (snd (generate_training_data env self c (int b) w))
           = sent w @ map (\<lambda>i. fmt (py_slice all_contents i (i + b)) (int i))
                        (py_range 0 (length all_contents) b)
       \<and> length (py_range 0 (length all_contents) b) = (length all_contents + b - 1) div b
       \<and> files (snd (generate_training_data env self c (int b) w)) = files w"
proof -
  from assms(1) have b: "0 < b" by simp
  from fetch_sent [of env c w] assms(3) have s1: "sent w1 = sent w" by simp
  have q: "0 * b \<le> length all_contents" "length ([] :: pydict list) = 0 * b"
    "length (sent w1) = length (sent w) + 0"
    by (simp_all add: s1)
  from process_batches_answered_at_sent
    [where cl = "api_communicator self" and ?s0.0 = "length (sent w)" and fmt = fmt
       and q = 0 and response = "[]" and w = w1, OF b assms(5) q] assms(2)
  have run: "sent (snd (process_batches (Some fmt) (api_communicator self) all_contents b
                     (py_range 0 (length all_contents) b) [] w1))
           = sent w1 @ map (\<lambda>j. fmt (py_slice all_contents j (j + b)) (int j))
                        (py_range 0 (length all_contents) b)"
    and err: "fst (process_batches (Some fmt) (api_communicator self) all_contents b
                     (py_range 0 (length all_contents) b) [] w1) = Inl IndexError"
    by simp_all
  from err have r: "fst (generate_training_data env self c (int b) w) = Inl IndexError"
    unfolding generate_training_data_fst [OF assms(3) b] assms(4) by simp
  moreover from run have "sent (snd (generate_training_data env self c (int b) w))
           = sent w @ map (\<lambda>i. fmt (py_slice all_contents i (i + b)) (int i))
                        (py_range 0 (length all_contents) b)"
    unfolding generate_training_data_sent [OF assms(3) b] assms(4) s1 .
  moreover have "length (py_range 0 (length all_contents) b) = (length all_contents + b - 1) div b"
    using length_py_range [OF b, of 0 "length all_contents"] by simp
  moreover from r have "files (snd (generate_training_data env self c (int b) w)) = files w"
    by (rule generate_training_data_files_raised)
  ultimately show ?thesis by simp
qed

theorem short_final_batch_raises_IndexError_witness:
  "fst (generate_training_data (quiet_env posts_ABC)
     (DatasetGenerator ()
        (scripted [Inr [generated ''i1'' ''0'', generated ''i2'' ''1''],
                   Inr [generated ''i3'' ''2'']]) format_prompt)
     ''cleaned_posts'' 2 fresh_world) = Inl IndexError
   \<and> length (sent (snd (generate_training_data (quiet_env posts_ABC)
     (DatasetGenerator ()
        (scripted [Inr [generated ''i1'' ''0'', generated ''i2'' ''1''],
                   Inr [generated ''i3'' ''2'']]) format_prompt)
     ''cleaned_posts'' 2 fresh_world))) = 2"
proof -
  let ?self = "DatasetGenerator ()
        (scripted [Inr [generated ''i1'' ''0'', generated ''i2'' ''1''],
                   Inr [generated ''i3'' ''2'']]) format_prompt"
  let ?all = "[PyStr ''A'', PyStr ''B'', PyStr ''C'']"
  have b: "1 < (2::nat)" by simp
  have nd: "\<not> (2::nat) dvd length ?all" by simp
  have f: "fetch_all_cleaned_content (quiet_env posts_ABC) ''cleaned_posts'' fresh_world
      = (Inr ?all, fresh_world\<lparr>scroll_calls := [(''cleaned_posts'', 10000)]\<rparr>)"
    by (simp add: fetch_all_cleaned_content_def quiet_env_def posts_ABC_def content_point_def
        fresh_world_def)
  have g: "data_formatter_global (quiet_env posts_ABC) = Some format_prompt"
    by (simp add: quiet_env_def)
  have H: "\<exists>objs. api_communicator ?self (length (sent fresh_world) + k)
                (format_prompt (py_slice ?all (k * 2) (k * 2 + 2)) (int (k * 2))) = Inr objs
              \<and> length objs = length (py_slice ?all (k * 2) (k * 2 + 2))"
    if "k * 2 < length ?all" for k
  proof -
    from that have "k = 0 \<or> k = 1" by auto
    then show ?thesis
      by (auto simp add: DatasetGenerator_def scripted_def fresh_world_def py_slice_def)
  qed
  from short_final_batch_raises_IndexError [OF b nd f g H]
  show ?thesis by (simp add: py_range.simps fresh_world_def)
qed

subsection \<open>C3: the batches\<close>





subsection \<open>C4: the markers of a prompt\<close>

text \<open>
  Claim C4 says that for every non-empty list of content strings and every start index
  \<open>\<ge> 0\<close> the prompt contains exactly one \<^verbatim>\<open>Content number N\<close> marker per item. The items
  are copied into the prompt as they are, so an item that itself holds such a line adds a
  marker: the prompt for the single item \<^verbatim>\<open>"Content number 0"\<close> has two marker lines.
\<close>

theorem marker_inside_an_item_counterexample:
  "marker_lines (format_prompt [PyStr ''Content number 0''] 0)
     = [''Content number 0'', ''Content number 0'']"
proof -
  have "str_int 0 = ''0''"
    by (simp add: str_int_def str_nat.simps digit_char_def)
  moreover have "marker_lines ''Content number 0'' = [''Content number 0'']"
    by (simp add: marker_lines_def is_marker_def is_digit_def)
  ultimately show ?thesis
    by (simp add: marker_lines_format_prompt)
qed

text \<open>
  Claim C4 as amended: for every list of content strings none of whose lines is itself a
  marker line (\<^verbatim>\<open>Content number\<close> and a decimal numeral) and every start index \<open>\<ge> 0\<close>,
  the prompt is the preamble, the sentence that states the expected number of objects,
  which is the length of the batch, the heading, and then for each item in order the
  marker \<^verbatim>\<open>Content number N\<close> with \<open>N\<close> the start index plus the item's position, followed
  by the item's text; and the marker lines of the prompt are exactly these markers, one per
  item, with \<open>N\<close> going up by one from the start index.
\<close>

theorem format_prompt_markers:
  assumes "0 \<le> start_index"
    and "\<forall>x \<in> set inference_posts. marker_lines (py_str x) = []"
  shows "format_prompt inference_posts start_index =
     USER_PROMPT
     @ ''You must generate exactly a list of '' @ str_int (int (length inference_posts))
     @ '' json objects, using the contents provided under CONTENTS FOR GENERATION\<newline>''
     @ ''\<newline>CONTENTS FOR GENERATION: \<newline>''
     @ concat (map (\<lambda>k. ''Content number '' @ str_int (start_index + int k)
                          @ CHR 0x0A # py_str (inference_posts ! k) @ [CHR 0x0A])
                 [0..<length inference_posts])
   \<and> marker_lines (format_prompt inference_posts start_index)
       = map (\<lambda>k. ''Content number '' @ str_int (start_index + int k))
           [0..<length inference_posts]"
proof
  show "format_prompt inference_posts start_index =
     USER_PROMPT
     @ ''You must generate exactly a list of '' @ str_int (int (length inference_posts))
     @ '' json objects, using the contents provided under CONTENTS FOR GENERATION\<newline>''
     @ ''\<newline>CONTENTS FOR GENERATION: \<newline>''
     @ concat (map (\<lambda>k. ''Content number '' @ str_int (start_index + int k)
                          @ CHR 0x0A # py_str (inference_posts ! k) @ [CHR 0x0A])
                 [0..<length inference_posts])"
    by (rule format_prompt_closed)
  have "concat (map (\<lambda>k. (''Content number '' @ str_int (start_index + int k))
                          # marker_lines (py_str (inference_posts ! k))) ks)
      = map (\<lambda>k. ''Content number '' @ str_int (start_index + int k)) ks"
    if "set ks \<subseteq> {0..<length inference_posts}" for ks
    using that assms(2) by (induction ks) simp_all
  from this [of "[0..<length inference_posts]"]
  show "marker_lines (format_prompt inference_posts start_index)
       = map (\<lambda>k. ''Content number '' @ str_int (start_index + int k))
           [0..<length inference_posts]"
    unfolding marker_lines_format_prompt [OF assms(1)] by simp
qed

theorem format_prompt_markers_witness:
  "marker_lines (format_prompt [PyStr ''A'', PyStr ''B''] 7)
     = [''Content number 7'', ''Content number 8'']"
proof -
  have a: "(0::int) \<le> 7" by simp
  have b: "\<forall>x \<in> set [PyStr ''A'', PyStr ''B'']. marker_lines (py_str x) = []"
    by (simp add: marker_lines_def is_marker_def)
  have "str_int 7 = ''7''" "str_int 8 = ''8''"
    by (simp_all add: str_int_def str_nat.simps digit_char_def)
  with format_prompt_markers [OF a b, THEN conjunct2] show ?thesis
    by (simp add: upt_conv_Cons)
qed

subsection \<open>C5: the formatter that builds the prompts\<close>

text \<open>
  Claim C5: \<^verbatim>\<open>generate_training_data\<close> builds its prompts with the module-level name
  \<^verbatim>\<open>data_formatter\<close>, not with the field \<^verbatim>\<open>self.data_formatter\<close>; when the module is imported
  and the name is unbound, a run over a non-empty collection raises \<^verbatim>\<open>NameError\<close> on the
  first batch. In the model: the run is the same whatever formatter \<open>f\<close> the generator was
  constructed with; when the global is bound to \<open>g\<close>, the prompts sent are \<open>g\<close> applied to
  the leading batches; when it is unbound, the collection is not empty and the batch size is
  positive, the run raises \<^verbatim>\<open>NameError\<close> right after the fetch, with no prompt sent and no
  file touched.
\<close>

theorem prompts_come_from_the_module_level_formatter:
  "generate_training_data env (self\<lparr>data_formatter := f\<rparr>) c batch_size w
     = generate_training_data env self c batch_size w
   \<and> (data_formatter_global env = Some g \<longrightarrow>
        fetch_all_cleaned_content env c w = (Inr all_contents, w1) \<longrightarrow> 0 < b \<longrightarrow>
        (\<exists>k \<le> length (py_range 0 (length all_contents) b).
           sent (snd (generate_training_data env self c (int b) w))
             = sent w @ map (\<lambda>i. g (py_slice all_contents i (i + b)) (int i))
                          (take k (py_range 0 (length all_contents) b))))
   \<and> (data_formatter_global env = None \<longrightarrow>
        fetch_all_cleaned_content env c w = (Inr all_contents, w1) \<longrightarrow>
        all_contents \<noteq> [] \<longrightarrow> 0 < b \<longrightarrow>
        generate_training_data env self c (int b) w = (Inl (NameError ''data_formatter''), w1)
        \<and> sent w1 = sent w \<and> files w1 = files w)"
proof (intro conjI impI)
  have "api_communicator (self\<lparr>data_formatter := f\<rparr>) = api_communicator self" by simp
  then show "generate_training_data env (self\<lparr>data_formatter := f\<rparr>) c batch_size w
     = generate_training_data env self c batch_size w"
    unfolding generate_training_data_def by (simp only:)
next
  assume g: "data_formatter_global env = Some g"
    and f: "fetch_all_cleaned_content env c w = (Inr all_contents, w1)" and b: "0 < b"
  from fetch_sent [of env c w] f have s1: "sent w1 = sent w" by simp
  from process_batches_prefix [of "py_range 0 (length all_contents) b" g
         "api_communicator self" all_contents b "[]" w1]
  show "\<exists>k \<le> length (py_range 0 (length all_contents) b).
           sent (snd (generate_training_data env self c (int b) w))
             = sent w @ map (\<lambda>i. g (py_slice all_contents i (i + b)) (int i))
                          (take k (py_range 0 (length all_contents) b))"
    unfolding generate_training_data_sent [OF f b] g s1 .
next
  assume g: "data_formatter_global env = None"
    and f: "fetch_all_cleaned_content env c w = (Inr all_contents, w1)"
    and ne: "all_contents \<noteq> []" and b: "0 < b"
  from ne b have "py_range 0 (length all_contents) b
      = 0 # py_range (0 + b) (length all_contents) b"
    by (intro py_range_Cons) simp_all
  then show "generate_training_data env self c (int b) w = (Inl (NameError ''data_formatter''), w1)"
    unfolding generate_training_data_batches [OF f b] g by simp
  from fetch_sent [of env c w] f show "sent w1 = sent w" by simp
  from fetch_files [of env c w] f show "files w1 = files w" by simp
qed

theorem prompts_come_from_the_module_level_formatter_witness:
  "generate_training_data ((quiet_env posts_ABC)\<lparr>data_formatter_global := None\<rparr>)
      (DatasetGenerator () (scripted []) format_prompt) ''cleaned_posts'' 1 fresh_world
     = (Inl (NameError ''data_formatter''),
        fresh_world\<lparr>scroll_calls := [(''cleaned_posts'', 10000)]\<rparr>)
   \<and> sent (snd (generate_training_data
        ((quiet_env [content_point 0 ''A''])\<lparr>data_formatter_global := Some (\<lambda>batch i. ''G'')\<rparr>)
        (DatasetGenerator () (scripted [Inr [generated ''i1'' ''0'']]) format_prompt)
        ''cleaned_posts'' 1 fresh_world)) = [''G'']"
  using prompts_come_from_the_module_level_formatter
    [where env = "(quiet_env posts_ABC)\<lparr>data_formatter_global := None\<rparr>"
       and self = "DatasetGenerator () (scripted []) format_prompt"
       and c = "''cleaned_posts''" and w = fresh_world and b = 1
       and all_contents = "[PyStr ''A'', PyStr ''B'', PyStr ''C'']"
       and ?w1.0 = "fresh_world\<lparr>scroll_calls := [(''cleaned_posts'', 10000)]\<rparr>"]
    prompts_come_from_the_module_level_formatter
    [where env = "(quiet_env [content_point 0 ''A''])\<lparr>data_formatter_global := Some (\<lambda>batch i. ''G'')\<rparr>"
       and self = "DatasetGenerator () (scripted [Inr [generated ''i1'' ''0'']]) format_prompt"
       and c = "''cleaned_posts''" and w = fresh_world and b = 1
       and g = "\<lambda>batch i. ''G''" and all_contents = "[PyStr ''A'']"
       and ?w1.0 = "fresh_world\<lparr>scroll_calls := [(''cleaned_posts'', 10000)]\<rparr>"]
  by (simp add: generate_training_data_def fetch_all_cleaned_content_def quiet_env_def
      posts_ABC_def content_point_def DatasetGenerator_def scripted_def generated_def
      fresh_world_def py_range.simps py_slice_def Let_def push_to_comet_sent)

subsection \<open>C6: a failing completion call\<close>

text \<open>
  Claim C6: when a call of the completion client fails during batch processing, the
  exception leaves \<^verbatim>\<open>generate_training_data\<close>, the remaining batches are not processed and
  no output file is written. In the model: if the \<open>k\<close>-th prompt the client received was
  sent by this run and the client answered it with the exception \<open>e\<close>, then the run raised
  \<open>e\<close>, that prompt is the last one sent, and the files are as they were before the run.
\<close>

theorem failed_completion_call_aborts_the_run:
  assumes "generate_training_data env self c batch_size w = (r, w')"
    and "length (sent w) \<le> k" and "k < length (sent w')"
    and "api_communicator self k (sent w' ! k) = Inl e"
  shows "r = Inl e \<and> Suc k = length (sent w') \<and> files w' = files w"
proof (cases "fetch_all_cleaned_content env c w")
  case (Pair fr w1)
  from fetch_sent [of env c w] Pair have s1: "sent w1 = sent w" by simp
  show ?thesis
  proof (cases fr)
    case (Inl e1)
    with Pair assms(1) have "w' = w1" by (simp add: generate_training_data_def)
    with s1 assms(2,3) show ?thesis by simp
  next
    case (Inr all_contents)
    show ?thesis
    proof (cases "batch_size = 0")
      case True
      with Pair Inr assms(1) have "w' = w1" by (simp add: generate_training_data_def)
      with s1 assms(2,3) show ?thesis by simp
    next
      case False
      let ?run = "process_batches (data_formatter_global env) (api_communicator self)
                    all_contents (nat batch_size)
                    (if batch_size < 0 then [] else py_range 0 (length all_contents) (nat batch_size))
                    [] w1"
      obtain res w2 where run: "?run = (res, w2)" by (cases ?run)
      have s2: "sent w' = sent w2"
      proof (cases res)
        case (Inl e2)
        with Pair Inr False run assms(1) show ?thesis by (simp add: generate_training_data_def)
      next
        case inr: (Inr response)
        with Pair Inr False run assms(1) have "w' = snd (push_to_comet env response c w2)"
          by (simp add: generate_training_data_def)
        then show ?thesis by (simp add: push_to_comet_sent)
      qed
      from process_batches_failed_call [OF run, of k e] assms(2,3,4) s1 s2
      have res: "res = Inl e" and last: "Suc k = length (sent w')" by simp_all
      from res Pair Inr False run assms(1) have r: "r = Inl e"
        by (simp add: generate_training_data_def)
      with assms(1) have "fst (generate_training_data env self c batch_size w) = Inl e" by simp
      from generate_training_data_files_raised [OF this] assms(1) have "files w' = files w"
        by simp
      with r last show ?thesis by simp
    qed
  qed
qed

theorem failed_completion_call_aborts_the_run_witness:
  "generate_training_data (quiet_env posts_ABC)
     (DatasetGenerator ()
        (scripted [Inr [generated ''i1'' ''0''], Inl (External ''malformed JSON'')]) format_prompt)
     ''cleaned_posts'' 1 fresh_world
   = (Inl (External ''malformed JSON''),
      fresh_world\<lparr>scroll_calls := [(''cleaned_posts'', 10000)],
                   sent := [format_prompt [PyStr ''A''] 0, format_prompt [PyStr ''B''] 1]\<rparr>)
   \<and> files (snd (generate_training_data (quiet_env posts_ABC)
     (DatasetGenerator ()
        (scripted [Inr [generated ''i1'' ''0''], Inl (External ''malformed JSON'')]) format_prompt)
     ''cleaned_posts'' 1 fresh_world)) ''cleaned_posts.json'' = None"
proof -
  have run: "generate_training_data (quiet_env posts_ABC)
     (DatasetGenerator ()
        (scripted [Inr [generated ''i1'' ''0''], Inl (External ''malformed JSON'')]) format_prompt)
     ''cleaned_posts'' 1 fresh_world
   = (Inl (External ''malformed JSON''),
      fresh_world\<lparr>scroll_calls := [(''cleaned_posts'', 10000)],
                   sent := [format_prompt [PyStr ''A''] 0, format_prompt [PyStr ''B''] 1]\<rparr>)"
    by (simp add: generate_training_data_def fetch_all_cleaned_content_def quiet_env_def
      posts_ABC_def content_point_def DatasetGenerator_def scripted_def generated_def
      fresh_world_def py_range.simps py_slice_def Let_def)
  from failed_completion_call_aborts_the_run [OF run, of 1 "External ''malformed JSON''"]
  have "files (fresh_world\<lparr>scroll_calls := [(''cleaned_posts'', 10000)],
                   sent := [format_prompt [PyStr ''A''] 0, format_prompt [PyStr ''B''] 1]\<rparr>)
          = files fresh_world"
    by (simp add: fresh_world_def DatasetGenerator_def scripted_def)
  with run show ?thesis by (simp add: fresh_world_def)
qed

subsection \<open>C7: what \<^verbatim>\<open>fetch_all_cleaned_content\<close> returns\<close>

text \<open>
  Claim C7 says that a record whose \<^verbatim>\<open>cleaned_content\<close> is empty or absent is dropped. A
  record whose payload has no \<^verbatim>\<open>cleaned_content\<close> key is not dropped: the subscript
  \<^verbatim>\<open>point.payload["cleaned_content"]\<close> raises \<^verbatim>\<open>KeyError\<close> and the fetch returns nothing,
  here for a page of three points whose second has only a \<^verbatim>\<open>title\<close>.
\<close>

theorem fetch_absent_key_counterexample:
  "fst (fetch_all_cleaned_content
          (quiet_env [content_point 0 ''A'',
                      \<lparr>point_id = 1, payload = [(''title'', PyStr ''untitled'')]\<rparr>,
                      content_point 2 ''C''])
          ''cleaned_posts'' fresh_world) = Inl (KeyError ''cleaned_content'')"
  by (simp add: fetch_all_cleaned_content_def quiet_env_def content_point_def Let_def)

text \<open>
  Claim C7 as amended: \<^verbatim>\<open>fetch_all_cleaned_content\<close> makes one \<^verbatim>\<open>scroll\<close> request with the
  page bound 10000 and reads only the page it returns (the offset of the next page is
  ignored, so records beyond the page are omitted). When every point of the page has the
  key \<^verbatim>\<open>cleaned_content\<close>, the points whose value is \<^verbatim>\<open>None\<close> or the empty text are dropped
  and the other values are returned in the order of the page; when some point lacks the
  key, the fetch raises \<^verbatim>\<open>KeyError\<close>.
\<close>

theorem fetch_all_cleaned_content_first_page:
  assumes "scroll env c 10000 = Inr (page, next_offset)"
  shows "fetch_all_cleaned_content env c w =
     (if \<forall>p \<in> set page. map_of (payload p) ''cleaned_content'' \<noteq> None
      then Inr (filter truthy (map (\<lambda>p. the (map_of (payload p) ''cleaned_content'')) page))
      else Inl (KeyError ''cleaned_content''),
      w\<lparr>scroll_calls := scroll_calls w @ [(c, 10000)]\<rparr>)
    \<and> (truthy v \<longleftrightarrow> v \<noteq> PyNone \<and> v \<noteq> PyStr '''')"
proof
  show "fetch_all_cleaned_content env c w =
     (if \<forall>p \<in> set page. map_of (payload p) ''cleaned_content'' \<noteq> None
      then Inr (filter truthy (map (\<lambda>p. the (map_of (payload p) ''cleaned_content'')) page))
      else Inl (KeyError ''cleaned_content''),
      w\<lparr>scroll_calls := scroll_calls w @ [(c, 10000)]\<rparr>)"
    using assms by (simp add: fetch_all_cleaned_content_def collect_cleaned_eq)
  show "truthy v \<longleftrightarrow> v \<noteq> PyNone \<and> v \<noteq> PyStr ''''"
    by (cases v) simp_all
qed

theorem fetch_all_cleaned_content_first_page_witness:
  "fetch_all_cleaned_content
     (quiet_env [content_point 0 ''A'', content_point 1 '''',
                 \<lparr>point_id = 2, payload = [(''cleaned_content'', PyNone)]\<rparr>,
                 content_point 3 ''C''])
     ''cleaned_posts'' fresh_world
   = (Inr [PyStr ''A'', PyStr ''C''],
      fresh_world\<lparr>scroll_calls := [(''cleaned_posts'', 10000)]\<rparr>)"
  using fetch_all_cleaned_content_first_page
    [of "quiet_env [content_point 0 ''A'', content_point 1 '''',
                 \<lparr>point_id = 2, payload = [(''cleaned_content'', PyNone)]\<rparr>,
                 content_point 3 ''C'']"
        "''cleaned_posts''"
        "[content_point 0 ''A'', content_point 1 '''',
                 \<lparr>point_id = 2, payload = [(''cleaned_content'', PyNone)]\<rparr>,
                 content_point 3 ''C'']"
        None fresh_world]
  by (simp add: quiet_env_def content_point_def fresh_world_def)

subsection \<open>C8: failures of the artifact push\<close>

lemma fetch_sink_independent:
  "fetch_all_cleaned_content
     (env\<lparr>open_w := x2, experiment_init := x1, artifact_init := x3, artifact_add := x4,
          log_artifact := x5, experiment_end := x6\<rparr>) c w
   = fetch_all_cleaned_content env c w"
  by (simp add: fetch_all_cleaned_content_def)

text \<open>
  Claim C8: an exception raised inside \<^verbatim>\<open>push_to_comet\<close> is caught and logged and does not
  reach the caller of \<^verbatim>\<open>generate_training_data\<close>, and the local file exists when only the
  upload fails. In the model: \<^verbatim>\<open>push_to_comet\<close> always returns normally; when its \<^verbatim>\<open>try\<close>
  block raised \<open>e\<close>, the last log record is the error record naming \<open>e\<close>; when the
  experiment was created and the file could be opened, the file holds the serialised data
  whatever the later tracker calls do; and the result of \<^verbatim>\<open>generate_training_data\<close> is the
  same whatever the outcomes \<open>x1\<close> to \<open>x6\<close> of the file and tracker calls are.
\<close>

theorem push_to_comet_failures_stay_inside:
  "fst (push_to_comet env data c w) = Inr ()
   \<and> (fst (push_to_comet_try env data c w) = Inl e \<longrightarrow>
        last (logs (snd (push_to_comet env data c w)))
          = (ERROR, ''Failed to push data to Comet: '' @ str_error e))
   \<and> (experiment_init env = None \<longrightarrow> open_w env (c @ ''.json'') = None \<longrightarrow>
        files (snd (push_to_comet env data c w)) (c @ ''.json'') = Some (json_dumps env data))
   \<and> fst (generate_training_data
            (env\<lparr>open_w := x2, experiment_init := x1, artifact_init := x3, artifact_add := x4,
                 log_artifact := x5, experiment_end := x6\<rparr>) self c b w)
       = fst (generate_training_data env self c b w)"
proof (intro conjI impI)
  show "fst (push_to_comet env data c w) = Inr ()" by (rule push_to_comet_fst)
next
  assume "fst (push_to_comet_try env data c w) = Inl e"
  then show "last (logs (snd (push_to_comet env data c w)))
          = (ERROR, ''Failed to push data to Comet: '' @ str_error e)"
    by (simp add: push_to_comet_logged)
next
  assume "experiment_init env = None" "open_w env (c @ ''.json'') = None"
  then show "files (snd (push_to_comet env data c w)) (c @ ''.json'') = Some (json_dumps env data)"
    by (simp add: push_to_comet_files)
next
  let ?env' = "env\<lparr>open_w := x2, experiment_init := x1, artifact_init := x3, artifact_add := x4,
                 log_artifact := x5, experiment_end := x6\<rparr>"
  obtain r w1 where f: "fetch_all_cleaned_content env c w = (r, w1)"
    by (cases "fetch_all_cleaned_content env c w")
  then have f': "fetch_all_cleaned_content ?env' c w = (r, w1)"
    by (simp only: fetch_sink_independent)
  show "fst (generate_training_data ?env' self c b w) = fst (generate_training_data env self c b w)"
  proof (cases r)
    case (Inl e1)
    with f f' show ?thesis by (simp add: generate_training_data_def)
  next
    case (Inr all_contents)
    let ?run = "process_batches (data_formatter_global env) (api_communicator self)
                    all_contents (nat b)
                    (if b < 0 then [] else py_range 0 (length all_contents) (nat b)) [] w1"
    obtain res w2 where run: "?run = (res, w2)" by (cases ?run)
    show ?thesis
    proof (cases res)
      case (Inl e2)
      with f f' Inr run show ?thesis by (simp add: generate_training_data_def)
    next
      case inr: (Inr response)
      with f f' Inr run show ?thesis
        by (simp add: generate_training_data_def push_to_comet_fst)
    qed
  qed
qed

theorem push_to_comet_failures_stay_inside_witness:
  "fst (push_to_comet ((quiet_env posts_ABC)\<lparr>log_artifact := Some (External ''upload refused'')\<rparr>)
          [generated ''i1'' ''A''] ''cleaned_posts'' fresh_world) = Inr ()
   \<and> last (logs (snd (push_to_comet
          ((quiet_env posts_ABC)\<lparr>log_artifact := Some (External ''upload refused'')\<rparr>)
          [generated ''i1'' ''A''] ''cleaned_posts'' fresh_world)))
        = (ERROR, ''Failed to push data to Comet: upload refused'')
   \<and> files (snd (push_to_comet
          ((quiet_env posts_ABC)\<lparr>log_artifact := Some (External ''upload refused'')\<rparr>)
          [generated ''i1'' ''A''] ''cleaned_posts'' fresh_world)) ''cleaned_posts.json''
        = Some (json_plain [generated ''i1'' ''A''])"
  using push_to_comet_failures_stay_inside
    [of "(quiet_env posts_ABC)\<lparr>log_artifact := Some (External ''upload refused'')\<rparr>"
        "[generated ''i1'' ''A'']" "''cleaned_posts''" fresh_world "External ''upload refused''"]
  by (simp add: push_to_comet_try_def quiet_env_def logging_info_def Let_def)

subsection \<open>C9: the empty collection and the collection of one batch\<close>



subsection \<open>C10: two runs over the same snapshot\<close>

lemma fetch_fst:
  "fst (fetch_all_cleaned_content env c w) =
     (case scroll env c 10000 of Inl e \<Rightarrow> Inl e
      | Inr scroll_response \<Rightarrow> collect_cleaned (fst scroll_response) [])"
  by (simp add: fetch_all_cleaned_content_def Let_def split: sum.splits)

text \<open>What a run returns, which prompts it sends and which dataset it hands to
  \<^verbatim>\<open>push_to_comet\<close> are fixed by the store's answer, the module-level formatter, the
  client and the number of prompts the client has seen.\<close>

lemma generate_training_data_determined:
  "\<exists>r new ds. \<forall>env w.
      scroll env c 10000 = page \<longrightarrow> data_formatter_global env = g \<longrightarrow> length (sent w) = n \<longrightarrow>
        fst (generate_training_data env self c batch_size w) = r
        \<and> sent (snd (generate_training_data env self c batch_size w)) = sent w @ new
        \<and> (r = Inr () \<longrightarrow>
             files (snd (generate_training_data env self c batch_size w)) =
               (if experiment_init env = None \<and> open_w env (c @ ''.json'') = None
                then (files w)(c @ ''.json'' \<mapsto> json_dumps env ds) else files w))"
proof -
  define fr where "fr = (case page of Inl e \<Rightarrow> Inl e
      | Inr scroll_response \<Rightarrow> collect_cleaned (fst scroll_response) [])"
  have fetch: "fst (fetch_all_cleaned_content env c w) = fr" if "scroll env c 10000 = page"
    for env w using that by (simp add: fetch_fst fr_def)
  show ?thesis
  proof (cases fr)
    case (Inl e)
    have "fst (generate_training_data env self c batch_size w) = Inl e
        \<and> sent (snd (generate_training_data env self c batch_size w)) = sent w @ []"
      if "scroll env c 10000 = page" for env w
    proof (cases "fetch_all_cleaned_content env c w")
      case (Pair a w1)
      with fetch [OF that, of w] Inl have a: "a = Inl e" by simp
      from fetch_sent [of env c w] Pair have "sent w1 = sent w" by simp
      with Pair a show ?thesis by (simp add: generate_training_data_def)
    qed
    then have "\<forall>env w.
      scroll env c 10000 = page \<longrightarrow> data_formatter_global env = g \<longrightarrow> length (sent w) = n \<longrightarrow>
        fst (generate_training_data env self c batch_size w) = Inl e
        \<and> sent (snd (generate_training_data env self c batch_size w)) = sent w @ []
        \<and> (Inl e = Inr () \<longrightarrow>
             files (snd (generate_training_data env self c batch_size w)) =
               (if experiment_init env = None \<and> open_w env (c @ ''.json'') = None
                then (files w)(c @ ''.json'' \<mapsto> json_dumps env []) else files w))"
      by simp
    then show ?thesis by blast
  next
    case (Inr all_contents)
    show ?thesis
    proof (cases "batch_size = 0")
      case True
      have "fst (generate_training_data env self c batch_size w) = Inl ValueError
          \<and> sent (snd (generate_training_data env self c batch_size w)) = sent w @ []"
        if "scroll env c 10000 = page" for env w
      proof (cases "fetch_all_cleaned_content env c w")
        case (Pair a w1)
        with fetch [OF that, of w] Inr have a: "a = Inr all_contents" by simp
        from fetch_sent [of env c w] Pair have "sent w1 = sent w" by simp
        with Pair a True show ?thesis by (simp add: generate_training_data_def)
      qed
      then have "\<forall>env w.
        scroll env c 10000 = page \<longrightarrow> data_formatter_global env = g \<longrightarrow> length (sent w) = n \<longrightarrow>
          fst (generate_training_data env self c batch_size w) = Inl ValueError
          \<and> sent (snd (generate_training_data env self c batch_size w)) = sent w @ []
          \<and> (Inl ValueError = Inr () \<longrightarrow>
               files (snd (generate_training_data env self c batch_size w)) =
                 (if experiment_init env = None \<and> open_w env (c @ ''.json'') = None
                  then (files w)(c @ ''.json'' \<mapsto> json_dumps env []) else files w))"
        by simp
      then show ?thesis by blast
    next
      case False
      define idxs where "idxs = (if batch_size < 0 then []
                     else py_range 0 (length all_contents) (nat batch_size))"
      from process_batches_world [of n g "api_communicator self" all_contents "nat batch_size"
             idxs "[]"]
      obtain res new where run: "\<And>w. length (sent w) = n \<Longrightarrow>
          process_batches g (api_communicator self) all_contents (nat batch_size) idxs [] w
            = (res, w\<lparr>sent := sent w @ new\<rparr>)"
        by blast
      have gen: "generate_training_data env self c batch_size w =
          (case res of Inl e \<Rightarrow> (Inl e, w1\<lparr>sent := sent w1 @ new\<rparr>)
           | Inr response \<Rightarrow> push_to_comet env response c (w1\<lparr>sent := sent w1 @ new\<rparr>))
          \<and> sent w1 = sent w \<and> files w1 = files w"
        if "scroll env c 10000 = page" "data_formatter_global env = g" "length (sent w) = n"
          "w1 = snd (fetch_all_cleaned_content env c w)"
        for env w w1
      proof -
        from fetch [OF that(1), of w] Inr that(4)
        have f: "fetch_all_cleaned_content env c w = (Inr all_contents, w1)"
          by (cases "fetch_all_cleaned_content env c w") simp
        from fetch_sent [of env c w] f have s1: "sent w1 = sent w" by simp
        from fetch_files [of env c w] f have f1: "files w1 = files w" by simp
        from run [of w1] s1 that(3) have
          "process_batches g (api_communicator self) all_contents (nat batch_size) idxs [] w1
            = (res, w1\<lparr>sent := sent w1 @ new\<rparr>)" by simp
        with f False that(2) s1 f1 show ?thesis
          by (cases res) (simp_all add: generate_training_data_def idxs_def)
      qed
      show ?thesis
      proof (cases res)
        case (Inl e)
        have "\<forall>env w.
          scroll env c 10000 = page \<longrightarrow> data_formatter_global env = g \<longrightarrow> length (sent w) = n \<longrightarrow>
            fst (generate_training_data env self c batch_size w) = Inl e
            \<and> sent (snd (generate_training_data env self c batch_size w)) = sent w @ new
            \<and> (Inl e = Inr () \<longrightarrow>
                 files (snd (generate_training_data env self c batch_size w)) =
                   (if experiment_init env = None \<and> open_w env (c @ ''.json'') = None
                    then (files w)(c @ ''.json'' \<mapsto> json_dumps env []) else files w))"
          using gen [OF _ _ _ refl] Inl by simp
        then show ?thesis by blast
      next
        case inr: (Inr response)
        have "\<forall>env w.
          scroll env c 10000 = page \<longrightarrow> data_formatter_global env = g \<longrightarrow> length (sent w) = n \<longrightarrow>
            fst (generate_training_data env self c batch_size w) = Inr ()
            \<and> sent (snd (generate_training_data env self c batch_size w)) = sent w @ new
            \<and> (Inr () = Inr () \<longrightarrow>
                 files (snd (generate_training_data env self c batch_size w)) =
                   (if experiment_init env = None \<and> open_w env (c @ ''.json'') = None
                    then (files w)(c @ ''.json'' \<mapsto> json_dumps env response) else files w))"
          using gen [OF _ _ _ refl] inr
          by (simp add: push_to_comet_fst push_to_comet_sent push_to_comet_files)
        then show ?thesis by blast
      qed
    qed
  qed
qed

text \<open>
  Claim C10: \<^verbatim>\<open>generate_training_data\<close> is deterministic. Given a fixed snapshot of the
  store and a fixed sequence of responses of the completion client, two runs over the same
  collection produce byte-identical output files; the prompt formatter in particular is a
  function of the batch and the start index alone. In the model \<open>format_prompt\<close> takes the
  batch and the start index and nothing else, and for two runs \<open>a\<close> and \<open>b\<close> that see the
  same page of the store, the same serialiser, the same module-level formatter and the
  same client in the same state, but start from any two worlds (other files, other logs)
  and meet any two behaviours of the experiment tracker: both return the same result, both
  send the same prompts, and when the run ends normally and both get as far as opening the
  file, the file exists and holds the same bytes after both.
\<close>

theorem same_snapshot_and_responses_same_file:
  assumes "scroll enva c 10000 = scroll envb c 10000"
    and "json_dumps enva = json_dumps envb"
    and "data_formatter_global enva = data_formatter_global envb"
    and "length (sent wa) = length (sent wb)"
  shows "fst (generate_training_data enva self c batch_size wa)
           = fst (generate_training_data envb self c batch_size wb)
       \<and> drop (length (sent wa)) (sent (snd (generate_training_data enva self c batch_size wa)))
           = drop (length (sent wb)) (sent (snd (generate_training_data envb self c batch_size wb)))
       \<and> (fst (generate_training_data enva self c batch_size wa) = Inr () \<longrightarrow>
            experiment_init enva = None \<longrightarrow> open_w enva (c @ ''.json'') = None \<longrightarrow>
            experiment_init envb = None \<longrightarrow> open_w envb (c @ ''.json'') = None \<longrightarrow>
            files (snd (generate_training_data enva self c batch_size wa)) (c @ ''.json'')
              = files (snd (generate_training_data envb self c batch_size wb)) (c @ ''.json'')
            \<and> files (snd (generate_training_data enva self c batch_size wa)) (c @ ''.json'')
              \<noteq> None)"
proof -
  from generate_training_data_determined
    [of c "scroll enva c 10000" "data_formatter_global enva" "length (sent wa)" self batch_size]
  obtain r new ds where det: "\<And>env w. scroll env c 10000 = scroll enva c 10000 \<Longrightarrow>
      data_formatter_global env = data_formatter_global enva \<Longrightarrow>
      length (sent w) = length (sent wa) \<Longrightarrow>
        fst (generate_training_data env self c batch_size w) = r
        \<and> sent (snd (generate_training_data env self c batch_size w)) = sent w @ new
        \<and> (r = Inr () \<longrightarrow>
             files (snd (generate_training_data env self c batch_size w)) =
               (if experiment_init env = None \<and> open_w env (c @ ''.json'') = None
                then (files w)(c @ ''.json'' \<mapsto> json_dumps env ds) else files w))"
    by blast
  from det [of enva wa] have a:
    "fst (generate_training_data enva self c batch_size wa) = r"
    "sent (snd (generate_training_data enva self c batch_size wa)) = sent wa @ new"
    "r = Inr () \<longrightarrow> files (snd (generate_training_data enva self c batch_size wa)) =
               (if experiment_init enva = None \<and> open_w enva (c @ ''.json'') = None
                then (files wa)(c @ ''.json'' \<mapsto> json_dumps enva ds) else files wa)"
    by simp_all
  from det [of envb wb] assms have b:
    "fst (generate_training_data envb self c batch_size wb) = r"
    "sent (snd (generate_training_data envb self c batch_size wb)) = sent wb @ new"
    "r = Inr () \<longrightarrow> files (snd (generate_training_data envb self c batch_size wb)) =
               (if experiment_init envb = None \<and> open_w envb (c @ ''.json'') = None
                then (files wb)(c @ ''.json'' \<mapsto> json_dumps envb ds) else files wb)"
    by simp_all
  show ?thesis
  proof (intro conjI impI)
    show "fst (generate_training_data enva self c batch_size wa)
           = fst (generate_training_data envb self c batch_size wb)"
      by (simp only: a(1) b(1))
    show "drop (length (sent wa)) (sent (snd (generate_training_data enva self c batch_size wa)))
           = drop (length (sent wb)) (sent (snd (generate_training_data envb self c batch_size wb)))"
      by (simp add: a(2) b(2))
  next
    assume ok: "fst (generate_training_data enva self c batch_size wa) = Inr ()"
      and sa: "experiment_init enva = None" "open_w enva (c @ ''.json'') = None"
      and sb: "experiment_init envb = None" "open_w envb (c @ ''.json'') = None"
    from ok a(1) have r: "r = Inr ()" by simp
    from a(3) r sa have fa: "files (snd (generate_training_data enva self c batch_size wa))
        (c @ ''.json'') = Some (json_dumps enva ds)" by simp
    from b(3) r sb have fb: "files (snd (generate_training_data envb self c batch_size wb))
        (c @ ''.json'') = Some (json_dumps envb ds)" by simp
    from fa fb assms(2) show
      "files (snd (generate_training_data enva self c batch_size wa)) (c @ ''.json'')
         = files (snd (generate_training_data envb self c batch_size wb)) (c @ ''.json'')"
      by simp
    from fa show
      "files (snd (generate_training_data enva self c batch_size wa)) (c @ ''.json'') \<noteq> None"
      by simp
  qed
qed

theorem same_snapshot_and_responses_same_file_witness:
  "files (snd (generate_training_data (quiet_env [content_point 0 ''A'', content_point 1 ''B''])
       (DatasetGenerator ()
          (scripted [Inr [generated ''i1'' ''0''], Inr [generated ''i2'' ''1'']]) format_prompt)
       ''cleaned_posts'' 1 fresh_world)) ''cleaned_posts.json''
   = files (snd (generate_training_data
       ((quiet_env [content_point 0 ''A'', content_point 1 ''B''])
          \<lparr>log_artifact := Some (External ''upload refused'')\<rparr>)
       (DatasetGenerator ()
          (scripted [Inr [generated ''i1'' ''0''], Inr [generated ''i2'' ''1'']]) format_prompt)
       ''cleaned_posts'' 1
       (fresh_world\<lparr>files := [''cleaned_posts.json'' \<mapsto> ''[]''],
                     logs := [(INFO, ''an earlier run'')]\<rparr>))) ''cleaned_posts.json''
   \<and> files (snd (generate_training_data (quiet_env [content_point 0 ''A'', content_point 1 ''B''])
       (DatasetGenerator ()
          (scripted [Inr [generated ''i1'' ''0''], Inr [generated ''i2'' ''1'']]) format_prompt)
       ''cleaned_posts'' 1 fresh_world)) ''cleaned_posts.json''
     = Some (json_plain [generated ''i1'' ''A'', generated ''i2'' ''B''])"
proof -
  let ?pts = "[content_point 0 ''A'', content_point 1 ''B'']"
  let ?self = "DatasetGenerator ()
          (scripted [Inr [generated ''i1'' ''0''], Inr [generated ''i2'' ''1'']]) format_prompt"
  let ?envb = "(quiet_env ?pts)\<lparr>log_artifact := Some (External ''upload refused'')\<rparr>"
  let ?wb = "fresh_world\<lparr>files := [''cleaned_posts.json'' \<mapsto> ''[]''],
                     logs := [(INFO, ''an earlier run'')]\<rparr>"
  have run: "fst (generate_training_data (quiet_env ?pts) ?self ''cleaned_posts'' 1 fresh_world)
      = Inr ()"
    and written: "files (snd (generate_training_data (quiet_env ?pts) ?self ''cleaned_posts'' 1
        fresh_world)) ''cleaned_posts.json''
      = Some (json_plain [generated ''i1'' ''A'', generated ''i2'' ''B''])"
    by (simp_all add: generate_training_data_def fetch_all_cleaned_content_def quiet_env_def
        content_point_def DatasetGenerator_def scripted_def generated_def
        fresh_world_def py_range.simps py_slice_def Let_def push_to_comet_fst push_to_comet_files)
  have 1: "scroll (quiet_env ?pts) ''cleaned_posts'' 10000 = scroll ?envb ''cleaned_posts'' 10000"
    and 2: "json_dumps (quiet_env ?pts) = json_dumps ?envb"
    and 3: "data_formatter_global (quiet_env ?pts) = data_formatter_global ?envb"
    and 4: "length (sent fresh_world) = length (sent ?wb)"
    and 5: "experiment_init (quiet_env ?pts) = None"
      "open_w (quiet_env ?pts) (''cleaned_posts'' @ ''.json'') = None"
      "experiment_init ?envb = None" "open_w ?envb (''cleaned_posts'' @ ''.json'') = None"
    by (simp_all add: quiet_env_def)
  from same_snapshot_and_responses_same_file [OF 1 2 3 4, of ?self 1] run 5
  have "files (snd (generate_training_data (quiet_env ?pts) ?self ''cleaned_posts'' 1 fresh_world))
          (''cleaned_posts'' @ ''.json'')
      = files (snd (generate_training_data ?envb ?self ''cleaned_posts'' 1 ?wb))
          (''cleaned_posts'' @ ''.json'')"
    by blast
  with written show ?thesis by simp
qed

section \<open>Collections that the batch size divides\<close>

lemma overwrite_contents_nth:
  "overwrite_contents js all_contents response = Inr response' \<Longrightarrow> distinct js \<Longrightarrow>
   j < length response \<Longrightarrow>
   response' ! j = (if j \<in> set js then dict_set ''content'' (all_contents ! j) (response ! j)
                    else response ! j)"
proof (induction js arbitrary: response)
  case Nil
  then show ?case by simp
next
  case (Cons k js)
  let ?r = "response[k := dict_set ''content'' (all_contents ! k) (response ! k)]"
  from Cons.prems(1) have k: "k < length all_contents" "k < length response"
    and rec: "overwrite_contents js all_contents ?r = Inr response'"
    by (auto split: if_splits)
  from Cons.prems(2) have d: "distinct js" "k \<notin> set js" by simp_all
  from Cons.IH [OF rec d(1)] Cons.prems(3)
  have ih: "response' ! j = (if j \<in> set js then dict_set ''content'' (all_contents ! j) (?r ! j)
                    else ?r ! j)" by simp
  show ?case
  proof (cases "j = k")
    case True
    with ih d(2) k show ?thesis by simp
  next
    case False
    with ih show ?thesis by simp
  qed
qed

text \<open>When every batch is full and every call is answered with as many objects as the
  batch holds, the loop ends normally with one object per record: the object at position
  \<open>j\<close> is the one the client returned for it, with the record text as its content.\<close>

lemma process_batches_full:
  assumes b: "0 < b"
    and n: "length all_contents = t * b"
    and cl: "\<And>K. K < t \<Longrightarrow>
           cl (s0 + K) (fmt (py_slice all_contents (K * b) (K * b + b)) (int (K * b)))
             = Inr (resp K) \<and> length (resp K) = b"
  shows "q + r = t \<Longrightarrow> length response = q * b \<Longrightarrow> length (sent w) = s0 + q \<Longrightarrow>
    \<exists>ds. fst (process_batches (Some fmt) cl all_contents b
                  (py_range (q * b) (length all_contents) b) response w) = Inr ds
       \<and> length ds = length all_contents
       \<and> (\<forall>j < q * b. ds ! j = response ! j)
       \<and> (\<forall>j. q * b \<le> j \<and> j < length all_contents \<longrightarrow>
             ds ! j = dict_set ''content'' (all_contents ! j) (resp (j div b) ! (j mod b)))"
proof (induction r arbitrary: q response w)
  case 0
  then have qt: "q * b = length all_contents" using n by simp
  then have e: "py_range (q * b) (length all_contents) b = []" by (simp add: py_range_empty)
  have l: "length response = length all_contents" using "0.prems"(2) qt by simp
  show ?case unfolding e
    by (rule exI [of _ response]) (auto simp add: l qt)
next
  case (Suc r)
  let ?i = "q * b"
  let ?n = "length all_contents"
  from Suc.prems(1) have q: "q < t" by simp
  then have "Suc q \<le> t" by simp
  then have "Suc q * b \<le> t * b" by (rule mult_le_mono1)
  then have le: "?i + b \<le> ?n" using n by (simp add: add.commute)
  with b have lt: "?i < ?n" by simp
  define p where "p = fmt (py_slice all_contents ?i (?i + b)) (int ?i)"
  define w1 where "w1 = w\<lparr>sent := sent w @ [p]\<rparr>"
  from cl [OF q] Suc.prems(3) have
    call: "cl (length (sent w)) p = Inr (resp q)" and lr: "length (resp q) = b"
    by (simp_all add: p_def)
  have "\<exists>r1. overwrite_contents [?i..<?i + b] all_contents (response @ resp q) = Inr r1"
    by (rule overwrite_contents_in_range) (use le lr Suc.prems(2) in auto)
  then obtain r1 where
    ov: "overwrite_contents [?i..<?i + b] all_contents (response @ resp q) = Inr r1"
    by blast
  from overwrite_contents_length [OF ov] lr Suc.prems(2)
  have len1: "length r1 = Suc q * b" by simp
  have nth1: "r1 ! j = (if ?i \<le> j then dict_set ''content'' (all_contents ! j) (resp q ! (j - ?i))
                        else response ! j)" if "j < ?i + b" for j
    using overwrite_contents_nth [OF ov, of j] that lr Suc.prems(2)
    by (auto simp add: nth_append)
  have s1: "length (sent w1) = s0 + Suc q" using Suc.prems(3) by (simp add: w1_def)
  from Suc.prems(1) have "Suc q + r = t" by simp
  from Suc.IH [OF this len1 s1] obtain ds where
    ds: "fst (process_batches (Some fmt) cl all_contents b
                  (py_range (Suc q * b) ?n b) r1 w1) = Inr ds"
      "length ds = ?n"
      "\<forall>j < Suc q * b. ds ! j = r1 ! j"
      "\<forall>j. Suc q * b \<le> j \<and> j < ?n \<longrightarrow>
             ds ! j = dict_set ''content'' (all_contents ! j) (resp (j div b) ! (j mod b))"
    by blast
  have rng: "py_range ?i ?n b = ?i # py_range (Suc q * b) ?n b"
    using py_range_Cons [OF b lt] by (simp add: add.commute)
  have run: "process_batches (Some fmt) cl all_contents b (?i # py_range (Suc q * b) ?n b)
               response w
      = process_batches (Some fmt) cl all_contents b (py_range (Suc q * b) ?n b) r1 w1"
    using call ov by (simp add: p_def w1_def Let_def py_range_step1)
  have old: "ds ! j = response ! j" if "j < ?i" for j
  proof -
    from that have "j < Suc q * b" "j < ?i + b" by simp_all
    with ds(3) nth1 [of j] that show ?thesis by simp
  qed
  have new: "ds ! j = dict_set ''content'' (all_contents ! j) (resp (j div b) ! (j mod b))"
    if "?i \<le> j" "j < ?n" for j
  proof (cases "j < ?i + b")
    case True
    then have jb: "j < Suc q * b" by (simp add: add.commute)
    from that(1) True b have "j div b = q"
      by (metis add.commute div_nat_eqI mult.commute mult_Suc_right)
    moreover from this have "j mod b = j - ?i"
      by (metis add_diff_cancel_left' mult.commute mult_div_mod_eq)
    ultimately show ?thesis using ds(3) jb nth1 [OF True] that(1) by simp
  next
    case False
    then have "Suc q * b \<le> j" by (simp add: add.commute)
    with ds(4) that(2) show ?thesis by simp
  qed
  from ds(1,2) old new show ?case unfolding rng run by blast
qed

text \<open>
  What C1 describes does hold when every batch is full, as with the \<^verbatim>\<open>batch_size=1\<close> of the
  script. With the records fetched, the module-level formatter bound, \<open>n = t * b\<close> records
  and every call answered with \<open>b\<close> objects, the run hands \<^verbatim>\<open>push_to_comet\<close> a dataset of
  \<open>n\<close> objects: the \<open>j\<close>-th is the object returned at position \<open>j mod b\<close> of the response to
  batch \<open>j div b\<close>, with its \<^verbatim>\<open>content\<close> set to the \<open>j\<close>-th record.
\<close>

theorem full_batches_give_the_dataset:
  assumes "0 < b"
    and "length all_contents = t * b"
    and "fetch_all_cleaned_content env c w = (Inr all_contents, w1)"
    and "data_formatter_global env = Some fmt"
    and "\<And>K. K < t \<Longrightarrow>
           api_communicator self (length (sent w) + K)
               (fmt (py_slice all_contents (K * b) (K * b + b)) (int (K * b)))
             = Inr (resp K) \<and> length (resp K) = b"
  shows "\<exists>ds w2. generate_training_data env self c (int b) w = push_to_comet env ds c w2
           \<and> length ds = length all_contents
           \<and> (\<forall>j < length all_contents.
                 ds ! j = dict_set ''content'' (all_contents ! j) (resp (j div b) ! (j mod b)))"
proof -
  from fetch_sent [of env c w] assms(3) have s1: "length (sent w1) = length (sent w) + 0"
    by simp
  from process_batches_full
    [where cl = "api_communicator self" and ?s0.0 = "length (sent w)" and fmt = fmt
       and resp = resp and q = 0 and r = t and response = "[]" and w = w1,
     OF assms(1) assms(2) assms(5)] s1
  obtain ds where ds:
    "fst (process_batches (Some fmt) (api_communicator self) all_contents b
            (py_range 0 (length all_contents) b) [] w1) = Inr ds"
    "length ds = length all_contents"
    "\<forall>j. j < length all_contents \<longrightarrow>
        ds ! j = dict_set ''content'' (all_contents ! j) (resp (j div b) ! (j mod b))"
    by auto
  obtain w2 where "process_batches (Some fmt) (api_communicator self) all_contents b
            (py_range 0 (length all_contents) b) [] w1 = (Inr ds, w2)"
    using ds(1) by (cases "process_batches (Some fmt) (api_communicator self) all_contents b
            (py_range 0 (length all_contents) b) [] w1") simp
  then have "generate_training_data env self c (int b) w = push_to_comet env ds c w2"
    unfolding generate_training_data_batches [OF assms(3,1)] assms(4) by simp
  with ds(2,3) show ?thesis by blast
qed

theorem full_batches_give_the_dataset_witness:
  "files (snd (generate_training_data (quiet_env posts_ABC)
     (DatasetGenerator ()
        (scripted [Inr [generated ''i1'' ''0''], Inr [generated ''i2'' ''1''],
                   Inr [generated ''i3'' ''2'']]) format_prompt)
     ''cleaned_posts'' 1 fresh_world)) ''cleaned_posts.json''
   = Some (json_plain [generated ''i1'' ''A'', generated ''i2'' ''B'', generated ''i3'' ''C''])"
proof -
  let ?rs = "[[generated ''i1'' ''0''], [generated ''i2'' ''1''], [generated ''i3'' ''2'']]"
  let ?self = "DatasetGenerator ()
        (scripted [Inr [generated ''i1'' ''0''], Inr [generated ''i2'' ''1''],
                   Inr [generated ''i3'' ''2'']]) format_prompt"
  let ?all = "[PyStr ''A'', PyStr ''B'', PyStr ''C'']"
  have b: "0 < (1::nat)" by simp
  have n: "length ?all = 3 * 1" by simp
  have f: "fetch_all_cleaned_content (quiet_env posts_ABC) ''cleaned_posts'' fresh_world
      = (Inr ?all, fresh_world\<lparr>scroll_calls := [(''cleaned_posts'', 10000)]\<rparr>)"
    by (simp add: fetch_all_cleaned_content_def quiet_env_def posts_ABC_def content_point_def
        fresh_world_def)
  have g: "data_formatter_global (quiet_env posts_ABC) = Some format_prompt"
    by (simp add: quiet_env_def)
  have H: "api_communicator ?self (length (sent fresh_world) + K)
               (format_prompt (py_slice ?all (K * 1) (K * 1 + 1)) (int (K * 1)))
             = Inr (?rs ! K) \<and> length (?rs ! K) = 1" if "K < 3" for K
  proof -
    from that have "K = 0 \<or> K = 1 \<or> K = 2" by auto
    then show ?thesis
      by (auto simp add: DatasetGenerator_def scripted_def fresh_world_def)
  qed
  from full_batches_give_the_dataset [OF b n f g H]
  obtain ds w2 where
    "generate_training_data (quiet_env posts_ABC) ?self ''cleaned_posts'' (int 1) fresh_world
       = push_to_comet (quiet_env posts_ABC) ds ''cleaned_posts'' w2"
    and l: "length ds = 3"
    and nth: "\<forall>j < length ?all. ds ! j = dict_set ''content'' (?all ! j) (?rs ! (j div 1) ! (j mod 1))"
    by auto
  then have written: "files (snd (generate_training_data (quiet_env posts_ABC) ?self ''cleaned_posts'' 1
       fresh_world)) ''cleaned_posts.json'' = Some (json_plain ds)"
    by (simp add: push_to_comet_files quiet_env_def)
  from nth have elems: "ds ! 0 = generated ''i1'' ''A''" "ds ! 1 = generated ''i2'' ''B''"
    "ds ! 2 = generated ''i3'' ''C''"
    by (simp_all add: generated_def)
  from l obtain x y z where "ds = [x, y, z]"
    by (auto simp add: numeral_3_eq_3 length_Suc_conv)
  with elems have "ds = [generated ''i1'' ''A'', generated ''i2'' ''B'', generated ''i3'' ''C'']"
    by simp
  with written show ?thesis by simp
qed

end
